theory Spec2Isabelle
  imports
    Complex_Main
    "HOL-Library.Multiset"
    "HOL-Library.AList"
    "HOL-Library.Char_ord"
    "HOL-Library.List_Lexorder"
begin

section \<open>Numbers, cells and tables\<close>

text \<open>
  A numeric cell of the table is a number of numpy: a float64, or an int64 in a column
  without missing cells. The model keeps the four kinds of value that the program tells
  apart: minus infinity, a finite number, plus infinity and NaN (which pandas also uses
  for a missing cell). A finite number is the rational it stands for; the sign of a zero
  is not kept.
\<close>

datatype fl = NInf | Fin rat | PInf | NaN

text \<open>The comparison \<open>x > 0\<close> of floats: false on NaN.\<close>

fun fl_pos :: "fl \<Rightarrow> bool" where
  "fl_pos (Fin a) = (0 < a)"
| "fl_pos PInf = True"
| "fl_pos NInf = False"
| "fl_pos NaN = False"

text \<open>The order of the non-NaN floats, and the order \<open>sort_values\<close> sorts a numeric
  column by: ascending, NaN last (\<open>na_position='last'\<close>).\<close>

fun fl_le :: "fl \<Rightarrow> fl \<Rightarrow> bool" where
  "fl_le _ NaN = True"
| "fl_le NaN _ = False"
| "fl_le NInf _ = True"
| "fl_le _ PInf = True"
| "fl_le (Fin a) (Fin b) = (a \<le> b)"
| "fl_le (Fin a) NInf = False"
| "fl_le PInf _ = False"

text \<open>
  A cell is a number or a string. \<open>read_csv\<close> gives a column of numbers, or a column of
  strings in which a missing cell is NaN.
\<close>

datatype cell = Num fl | Str string

datatype error = KeyError string | TypeError | ValueError

text \<open>
  \<open>KeyError c\<close>: the table has no column \<open>c\<close>. \<open>TypeError\<close>: arithmetic, comparison
  or sorting met a string where it needs a number. \<open>ValueError\<close>: a conversion to a
  number, a format specification or plotly refused its argument.
\<close>

definition ebind :: "error + 'a \<Rightarrow> ('a \<Rightarrow> error + 'b) \<Rightarrow> error + 'b" where
  "ebind m f = (case m of Inl e \<Rightarrow> Inl e | Inr x \<Rightarrow> f x)"

text \<open>
  A DataFrame: the names of its columns, in order, and its rows, in order. A row is a
  record from column name to cell, as \<open>to_dict('records')\<close> shows it; a column that a
  row does not hold reads as NaN there.
\<close>

type_synonym row = "(string \<times> cell) list"

record frame =
  columns :: "string list"
  rows :: "row list"

definition cell_at :: "row \<Rightarrow> string \<Rightarrow> cell" where
  "cell_at r c = (case map_of r c of Some v \<Rightarrow> v | None \<Rightarrow> Num NaN)"

text \<open>\<open>df[c]\<close>: the column as a Series, KeyError when the table has no such column.\<close>

definition getcol :: "frame \<Rightarrow> string \<Rightarrow> error + cell list" where
  "getcol d c =
     (if c \<in> set (columns d) then Inr (map (\<lambda>r. cell_at r c) (rows d))
      else Inl (KeyError c))"

text \<open>\<open>df[c] = series\<close>, for a Series computed from the columns of \<open>df\<close> itself: the
  column is replaced where it stands, or added as the last column.\<close>

definition setcol :: "frame \<Rightarrow> string \<Rightarrow> cell list \<Rightarrow> frame" where
  "setcol d c vs =
     \<lparr> columns = (if c \<in> set (columns d) then columns d else columns d @ [c]),
       rows = map2 (\<lambda>r v. AList.update c v r) (rows d) vs \<rparr>"

section \<open>What the libraries compute\<close>

text \<open>
  app.py calls numpy, pandas and plotly; what they compute inside is not written in
  app.py. Where the outcome of a call depends on the number format (the rounding and the
  overflow of float64, the wrap-around of int64), on the algorithm of the library (the
  order in which a sum is accumulated, the order in which a sort leaves rows of equal key)
  or on checks that the library makes on its arguments, the model takes the outcome from
  a parameter \<open>K\<close>, and every theorem holds for every \<open>K\<close>. What app.py itself decides
  is written out: which columns and which rows a call is given, the special values of
  the arithmetic, and the exceptions that the calls are known to raise.

  \<^item> \<open>k_quot\<close>, \<open>k_plus\<close>, \<open>k_times\<close>: quotient, sum and product of two finite numbers,
    the divisor not zero. The result may be an infinity (overflow).
  \<^item> \<open>k_sum c xs\<close>, \<open>k_mean c xs\<close>: \<open>Series.sum()\<close> and \<open>Series.mean()\<close> of the cells
    \<open>xs\<close> of column \<open>c\<close>: an exception, or the value (the sum of a column of strings can
    be a string).
  \<^item> \<open>k_group_sum c vs\<close>: the sum that \<open>groupby(...).agg('sum')\<close> forms of the numbers
    \<open>vs\<close> that a group has in the numeric column \<open>c\<close>.
  \<^item> \<open>k_tie asc ks i\<close>: the place that the sorting algorithm gives the row at position
    \<open>i\<close> among the rows of equal key, when it sorts the keys \<open>ks\<close>.
  \<^item> \<open>k_corr xs ys\<close>: the matrix that \<open>DataFrame.corr()\<close> computes of two columns of
    numbers.
  \<^item> \<open>k_imshow\<close>, \<open>k_px\<close>, \<open>k_px_values\<close>: the exception, if any, with which plotly
    express refuses a matrix, a table, or a list of values; the first argument of the
    latter two is the title of the chart.
\<close>

record kernels =
  k_quot :: "rat \<Rightarrow> rat \<Rightarrow> fl"
  k_plus :: "rat \<Rightarrow> rat \<Rightarrow> fl"
  k_times :: "rat \<Rightarrow> rat \<Rightarrow> fl"
  k_sum :: "string \<Rightarrow> cell list \<Rightarrow> error + cell"
  k_mean :: "string \<Rightarrow> cell list \<Rightarrow> error + fl"
  k_group_sum :: "string \<Rightarrow> fl list \<Rightarrow> fl"
  k_tie :: "bool \<Rightarrow> cell list \<Rightarrow> nat \<Rightarrow> nat"
  k_corr :: "fl list \<Rightarrow> fl list \<Rightarrow> error + fl list list"
  k_imshow :: "fl list list \<Rightarrow> error option"
  k_px :: "string \<Rightarrow> frame \<Rightarrow> error option"
  k_px_values :: "string \<Rightarrow> cell list \<Rightarrow> error option"

section \<open>Arithmetic on cells\<close>

text \<open>
  Addition, multiplication and division as numpy does them: no exception, NaN spreads,
  a finite number over zero is an infinity of the sign of the numerator, zero over zero
  is NaN.
\<close>

fun fadd :: "kernels \<Rightarrow> fl \<Rightarrow> fl \<Rightarrow> fl" where
  "fadd K NaN _ = NaN"
| "fadd K _ NaN = NaN"
| "fadd K (Fin a) (Fin b) = k_plus K a b"
| "fadd K PInf NInf = NaN"
| "fadd K NInf PInf = NaN"
| "fadd K PInf _ = PInf"
| "fadd K _ PInf = PInf"
| "fadd K NInf _ = NInf"
| "fadd K _ NInf = NInf"

fun fmul :: "kernels \<Rightarrow> fl \<Rightarrow> fl \<Rightarrow> fl" where
  "fmul K NaN _ = NaN"
| "fmul K _ NaN = NaN"
| "fmul K (Fin a) (Fin b) = k_times K a b"
| "fmul K PInf (Fin b) = (if b = 0 then NaN else if 0 < b then PInf else NInf)"
| "fmul K NInf (Fin b) = (if b = 0 then NaN else if 0 < b then NInf else PInf)"
| "fmul K (Fin a) PInf = (if a = 0 then NaN else if 0 < a then PInf else NInf)"
| "fmul K (Fin a) NInf = (if a = 0 then NaN else if 0 < a then NInf else PInf)"
| "fmul K PInf PInf = PInf"
| "fmul K NInf NInf = PInf"
| "fmul K PInf NInf = NInf"
| "fmul K NInf PInf = NInf"

fun fdiv :: "kernels \<Rightarrow> fl \<Rightarrow> fl \<Rightarrow> fl" where
  "fdiv K NaN _ = NaN"
| "fdiv K _ NaN = NaN"
| "fdiv K (Fin a) (Fin b) =
     (if b = 0 then (if a = 0 then NaN else if 0 < a then PInf else NInf)
      else k_quot K a b)"
| "fdiv K (Fin a) PInf = Fin 0"
| "fdiv K (Fin a) NInf = Fin 0"
| "fdiv K PInf (Fin b) = (if 0 \<le> b then PInf else NInf)"
| "fdiv K NInf (Fin b) = (if 0 \<le> b then NInf else PInf)"
| "fdiv K PInf PInf = NaN"
| "fdiv K PInf NInf = NaN"
| "fdiv K NInf PInf = NaN"
| "fdiv K NInf NInf = NaN"

fun cell_div :: "kernels \<Rightarrow> cell \<Rightarrow> cell \<Rightarrow> cell option" where
  "cell_div K (Num a) (Num b) = Some (Num (fdiv K a b))"
| "cell_div K _ _ = None"

text \<open>Python's \<open>+\<close> adds two numbers and concatenates two strings.\<close>

fun cell_add :: "kernels \<Rightarrow> cell \<Rightarrow> cell \<Rightarrow> cell option" where
  "cell_add K (Num a) (Num b) = Some (Num (fadd K a b))"
| "cell_add K (Str s) (Str t) = Some (Str (s @ t))"
| "cell_add K _ _ = None"

text \<open>A Series is the list of the cells of a column, in row order. An operator on two
  Series of the same table works cell by cell and raises on the first pair it cannot
  handle.\<close>

definition series_op :: "(cell \<Rightarrow> cell \<Rightarrow> cell option) \<Rightarrow> cell list \<Rightarrow> cell list \<Rightarrow> error + cell list" where
  "series_op f xs ys =
     (case those (map2 f xs ys) of None \<Rightarrow> Inl TypeError | Some zs \<Rightarrow> Inr zs)"

definition series_div_scalar :: "kernels \<Rightarrow> cell list \<Rightarrow> rat \<Rightarrow> error + cell list" where
  "series_div_scalar K xs k =
     (case those (map (\<lambda>x. cell_div K x (Num (Fin k))) xs) of
        None \<Rightarrow> Inl TypeError | Some zs \<Rightarrow> Inr zs)"

text \<open>\<open>.replace([np.inf, -np.inf], 0)\<close> and \<open>.fillna(0)\<close>.\<close>

fun replace_inf :: "cell \<Rightarrow> cell" where
  "replace_inf (Num PInf) = Num (Fin 0)"
| "replace_inf (Num NInf) = Num (Fin 0)"
| "replace_inf c = c"

fun fillna :: "cell \<Rightarrow> cell" where
  "fillna (Num NaN) = Num (Fin 0)"
| "fillna c = c"

section \<open>The Metric Deriver (app.py, lines 11 to 21)\<close>

text \<open>\<open>data[t] = data[a] / data[b]\<close>\<close>

definition assign_quotient :: "kernels \<Rightarrow> string \<Rightarrow> string \<Rightarrow> string \<Rightarrow> frame \<Rightarrow> error + frame" where
  "assign_quotient K t a b d =
     ebind (getcol d a) (\<lambda>xs.
     ebind (getcol d b) (\<lambda>ys.
     ebind (series_op (cell_div K) xs ys) (\<lambda>q.
     Inr (setcol d t q))))"

text \<open>\<open>data[t] = data[a] + data[b]\<close>\<close>

definition assign_sum :: "kernels \<Rightarrow> string \<Rightarrow> string \<Rightarrow> string \<Rightarrow> frame \<Rightarrow> error + frame" where
  "assign_sum K t a b d =
     ebind (getcol d a) (\<lambda>xs.
     ebind (getcol d b) (\<lambda>ys.
     ebind (series_op (cell_add K) xs ys) (\<lambda>q.
     Inr (setcol d t q))))"

text \<open>\<open>data[t] = (data[a] / data[b]).replace([np.inf, -np.inf], 0).fillna(0)\<close>\<close>

definition assign_quotient_sanitized :: "kernels \<Rightarrow> string \<Rightarrow> string \<Rightarrow> string \<Rightarrow> frame \<Rightarrow> error + frame" where
  "assign_quotient_sanitized K t a b d =
     ebind (getcol d a) (\<lambda>xs.
     ebind (getcol d b) (\<lambda>ys.
     ebind (series_op (cell_div K) xs ys) (\<lambda>q.
     Inr (setcol d t (map fillna (map replace_inf q))))))"

text \<open>\<open>data[t] = data[a] / (data[b] / 1000)\<close>\<close>

definition assign_per_1k :: "kernels \<Rightarrow> string \<Rightarrow> string \<Rightarrow> string \<Rightarrow> frame \<Rightarrow> error + frame" where
  "assign_per_1k K t a b d =
     ebind (getcol d a) (\<lambda>xs.
     ebind (getcol d b) (\<lambda>ys.
     ebind (series_div_scalar K ys 1000) (\<lambda>ks.
     ebind (series_op (cell_div K) xs ks) (\<lambda>q.
     Inr (setcol d t q)))))"

definition add_calculated_columns :: "kernels \<Rightarrow> frame \<Rightarrow> error + frame" where
  "add_calculated_columns K d0 =
     ebind (assign_quotient K ''Abandonment Rate''
              ''Nhs1 Abandoned Calls SUM'' ''Nhs1 Number Calls Offered SUM'' d0) (\<lambda>d1.
     ebind (assign_sum K ''Total_Cost''
              ''Nhs1 Cost Call Handlers SUM'' ''Nhs1 Cost Clinical Staff SUM'' d1) (\<lambda>d2.
     ebind (assign_quotient_sanitized K ''Cost_Per_Answered_Call''
              ''Total_Cost'' ''Nhs1 Answered Calls SUM'' d2) (\<lambda>d3.
     ebind (assign_quotient K ''A&E_Referral_Rate''
              ''Nhs1 Recommend To Ae SUM'' ''Nhs1 Answered Calls SUM'' d3) (\<lambda>d4.
     ebind (assign_quotient K ''PrimaryCare_Referral_Rate''
              ''Nhs1 Recommend To Primcare SUM'' ''Nhs1 Answered Calls SUM'' d4) (\<lambda>d5.
     ebind (assign_per_1k K ''Calls_Offered_Per_1k''
              ''Nhs1 Number Calls Offered SUM'' ''Nhs1 Population SUM'' d5) (\<lambda>d6.
     assign_per_1k K ''Ambulance_Dispatches_Per_1k''
              ''Nhs1 Amb Dispatches SUM'' ''Nhs1 Population SUM'' d6))))))"


text \<open>
  What the seven assignments make of one row, taken alone: \<open>None\<close> where the
  arithmetic meets a string.
\<close>

definition row_step :: "string \<Rightarrow> (row \<Rightarrow> cell option) \<Rightarrow> row option \<Rightarrow> row option" where
  "row_step t g ro =
     (case ro of None \<Rightarrow> None
      | Some r \<Rightarrow> (case g r of None \<Rightarrow> None | Some c \<Rightarrow> Some (AList.update t c r)))"

definition per_1k :: "kernels \<Rightarrow> cell \<Rightarrow> cell \<Rightarrow> cell option" where
  "per_1k K x p =
     (case cell_div K p (Num (Fin 1000)) of None \<Rightarrow> None | Some k \<Rightarrow> cell_div K x k)"

definition derive_row :: "kernels \<Rightarrow> row \<Rightarrow> row option" where
  "derive_row K r0 =
     (let r1 = row_step ''Abandonment Rate''
                 (\<lambda>r. cell_div K (cell_at r ''Nhs1 Abandoned Calls SUM'')
                                (cell_at r ''Nhs1 Number Calls Offered SUM'')) (Some r0);
          r2 = row_step ''Total_Cost''
                 (\<lambda>r. cell_add K (cell_at r ''Nhs1 Cost Call Handlers SUM'')
                                (cell_at r ''Nhs1 Cost Clinical Staff SUM'')) r1;
          r3 = row_step ''Cost_Per_Answered_Call''
                 (\<lambda>r. map_option (\<lambda>q. fillna (replace_inf q))
                        (cell_div K (cell_at r ''Total_Cost'') (cell_at r ''Nhs1 Answered Calls SUM''))) r2;
          r4 = row_step ''A&E_Referral_Rate''
                 (\<lambda>r. cell_div K (cell_at r ''Nhs1 Recommend To Ae SUM'')
                                (cell_at r ''Nhs1 Answered Calls SUM'')) r3;
          r5 = row_step ''PrimaryCare_Referral_Rate''
                 (\<lambda>r. cell_div K (cell_at r ''Nhs1 Recommend To Primcare SUM'')
                                (cell_at r ''Nhs1 Answered Calls SUM'')) r4;
          r6 = row_step ''Calls_Offered_Per_1k''
                 (\<lambda>r. per_1k K (cell_at r ''Nhs1 Number Calls Offered SUM'')
                              (cell_at r ''Nhs1 Population SUM'')) r5
      in row_step ''Ambulance_Dispatches_Per_1k''
                 (\<lambda>r. per_1k K (cell_at r ''Nhs1 Amb Dispatches SUM'')
                              (cell_at r ''Nhs1 Population SUM'')) r6)"

text \<open>The table with its rows rearranged: row \<open>i\<close> of the result is row \<open>p ! i\<close>.\<close>

definition take_rows :: "nat list \<Rightarrow> frame \<Rightarrow> frame" where
  "take_rows p d = d\<lparr>rows := map (\<lambda>i. rows d ! i) p\<rparr>"

text \<open>
  The shape that the seven assignments share, for the proofs: the columns \<open>need\<close> must
  exist, \<open>g\<close> computes the new cell of column \<open>t\<close> from the row, and a row where \<open>g\<close>
  fails makes the assignment raise.
\<close>

definition rowwise :: "string list \<Rightarrow> string \<Rightarrow> (row \<Rightarrow> cell option) \<Rightarrow> frame \<Rightarrow> error + frame" where
  "rowwise need t g d =
     (case filter (\<lambda>c. c \<notin> set (columns d)) need of
        c # cs \<Rightarrow> Inl (KeyError c)
      | [] \<Rightarrow> if \<exists>r\<in>set (rows d). g r = None then Inl TypeError
              else Inr \<lparr> columns = (if t \<in> set (columns d) then columns d else columns d @ [t]),
                         rows = map (\<lambda>r. AList.update t (the (g r)) r) (rows d) \<rparr>)"

section \<open>The pandas operations of the views\<close>

text \<open>\<open>df[mask]\<close>: the rows where the boolean Series holds, in table order.\<close>

definition mask_rows :: "frame \<Rightarrow> bool list \<Rightarrow> frame" where
  "mask_rows d m = d\<lparr>rows := map fst (filter snd (zip (rows d) m))\<rparr>"

text \<open>\<open>df[df[c] == v]\<close> for a string \<open>v\<close>\<close>

definition select_eq :: "string \<Rightarrow> string \<Rightarrow> frame \<Rightarrow> error + frame" where
  "select_eq c v d =
     ebind (getcol d c) (\<lambda>ks. Inr (mask_rows d (map (\<lambda>k. k = Str v) ks)))"

text \<open>\<open>df.dropna(subset=[c])\<close>\<close>

definition dropna :: "string \<Rightarrow> frame \<Rightarrow> error + frame" where
  "dropna c d =
     ebind (getcol d c) (\<lambda>ks. Inr (mask_rows d (map (\<lambda>k. k \<noteq> Num NaN) ks)))"

fun cell_pos :: "cell \<Rightarrow> bool option" where
  "cell_pos (Num a) = Some (fl_pos a)"
| "cell_pos (Str s) = None"

text \<open>\<open>df[df[c] > 0]\<close>\<close>

definition select_pos :: "string \<Rightarrow> frame \<Rightarrow> error + frame" where
  "select_pos c d =
     ebind (getcol d c) (\<lambda>ks.
       case those (map cell_pos ks) of
         None \<Rightarrow> Inl TypeError
       | Some m \<Rightarrow> Inr (mask_rows d m))"

text \<open>
  The order of the keys of a sort: missing keys last whatever the direction, numbers by
  value, strings by code point. (Numbers stand before strings where \<open>groupby\<close> meets
  both; \<open>sort_values\<close> raises there.)
\<close>

fun cell_le :: "bool \<Rightarrow> cell \<Rightarrow> cell \<Rightarrow> bool" where
  "cell_le asc _ (Num NaN) = True"
| "cell_le asc (Num NaN) _ = False"
| "cell_le asc (Num a) (Num b) = (if asc then fl_le a b else fl_le b a)"
| "cell_le asc (Str s) (Str t) = (if asc then s \<le> t else t \<le> s)"
| "cell_le asc (Num a) (Str t) = asc"
| "cell_le asc (Str s) (Num b) = (\<not> asc)"

fun insort_by :: "('a \<Rightarrow> 'a \<Rightarrow> bool) \<Rightarrow> 'a \<Rightarrow> 'a list \<Rightarrow> 'a list" where
  "insort_by le x [] = [x]"
| "insort_by le x (y # ys) = (if le x y then x # y # ys else y # insort_by le x ys)"

definition sort_by :: "('a \<Rightarrow> 'a \<Rightarrow> bool) \<Rightarrow> 'a list \<Rightarrow> 'a list" where
  "sort_by le xs = foldr (insort_by le) xs []"

fun is_num :: "cell \<Rightarrow> bool" where
  "is_num (Num a) = True"
| "is_num (Str s) = False"

fun is_str_or_na :: "cell \<Rightarrow> bool" where
  "is_str_or_na (Str s) = True"
| "is_str_or_na (Num a) = (a = NaN)"

text \<open>
  The order in which a sort by column \<open>c\<close> leaves two rows, each with its position in
  the table: by key, and rows of equal key in the order \<open>tie\<close> of their positions.
  pandas sorts with quicksort, which is not stable: which of two rows of equal key comes
  first is the sorting algorithm's choice.
\<close>

definition row_le :: "(nat \<Rightarrow> nat) \<Rightarrow> bool \<Rightarrow> string \<Rightarrow> nat \<times> row \<Rightarrow> nat \<times> row \<Rightarrow> bool" where
  "row_le tie asc c x y =
     (if cell_le asc (cell_at (snd x) c) (cell_at (snd y) c)
         \<and> cell_le asc (cell_at (snd y) c) (cell_at (snd x) c)
      then tie (fst x) \<le> tie (fst y)
      else cell_le asc (cell_at (snd x) c) (cell_at (snd y) c))"

definition sorted_rows :: "(nat \<Rightarrow> nat) \<Rightarrow> bool \<Rightarrow> string \<Rightarrow> row list \<Rightarrow> row list" where
  "sorted_rows tie asc c rs = map snd (sort_by (row_le tie asc c) (zip [0..<length rs] rs))"

text \<open>\<open>df.sort_values(c, ascending=asc)\<close>: TypeError on a column that holds numbers
  and strings.\<close>

definition sort_values :: "kernels \<Rightarrow> string \<Rightarrow> bool \<Rightarrow> frame \<Rightarrow> error + frame" where
  "sort_values K c asc d =
     ebind (getcol d c) (\<lambda>ks.
       if list_all is_num ks \<or> list_all is_str_or_na ks
       then Inr (d\<lparr>rows := sorted_rows (k_tie K asc ks) asc c (rows d)\<rparr>)
       else Inl TypeError)"

fun keep_first :: "('a \<Rightarrow> 'k) \<Rightarrow> 'k list \<Rightarrow> 'a list \<Rightarrow> 'a list" where
  "keep_first k seen [] = []"
| "keep_first k seen (x # xs) =
     (if k x \<in> set seen then keep_first k seen xs
      else x # keep_first k (k x # seen) xs)"

text \<open>\<open>df.drop_duplicates(c)\<close>: of the rows with the same value in column \<open>c\<close>, the
  first stays. Two missing values count as the same value.\<close>

definition drop_duplicates :: "string \<Rightarrow> frame \<Rightarrow> error + frame" where
  "drop_duplicates c d =
     ebind (getcol d c) (\<lambda>ks. Inr (d\<lparr>rows := keep_first (\<lambda>r. cell_at r c) [] (rows d)\<rparr>))"

text \<open>\<open>df.head(n)\<close>\<close>

definition head :: "nat \<Rightarrow> frame \<Rightarrow> error + frame" where
  "head n d = Inr (d\<lparr>rows := take n (rows d)\<rparr>)"

text \<open>\<open>df[c].sum()\<close> and \<open>df[c].mean()\<close>\<close>

definition column_sum :: "kernels \<Rightarrow> frame \<Rightarrow> string \<Rightarrow> error + cell" where
  "column_sum K d c = ebind (getcol d c) (k_sum K c)"

definition column_mean :: "kernels \<Rightarrow> frame \<Rightarrow> string \<Rightarrow> error + fl" where
  "column_mean K d c = ebind (getcol d c) (k_mean K c)"

text \<open>The quotient \<open>x / y\<close> of two such values.\<close>

definition scalar_div :: "kernels \<Rightarrow> cell \<Rightarrow> cell \<Rightarrow> error + cell" where
  "scalar_div K x y = (case cell_div K x y of None \<Rightarrow> Inl TypeError | Some q \<Rightarrow> Inr q)"

text \<open>
  A format specification for numbers, as in \<open>f"{total_calls:,}"\<close> and
  \<open>f"{total_cost:,.2f}"\<close>: Python raises ValueError when the value is a string. The
  text that it makes of a number is not modelled: a card holds the number.
\<close>

fun format_number :: "cell \<Rightarrow> error + fl" where
  "format_number (Num a) = Inr a"
| "format_number (Str s) = Inl ValueError"

fun cell_float :: "cell \<Rightarrow> fl option" where
  "cell_float (Num a) = Some a"
| "cell_float (Str s) = None"

definition as_floats :: "cell list \<Rightarrow> error + fl list" where
  "as_floats xs = (case those (map cell_float xs) of None \<Rightarrow> Inl TypeError | Some vs \<Rightarrow> Inr vs)"

text \<open>
  \<open>df.groupby(key).agg({c: 'sum' for c in cs}).reset_index()\<close>. The groups are the
  values of the key column, without the missing one, in their order. For each group and
  each column pandas sums the values that the rows of the group have in the column, in
  table order; a row whose key is missing belongs to no group.
\<close>

definition group_keys :: "cell list \<Rightarrow> cell list" where
  "group_keys ks = sort_by (cell_le True) (keep_first (\<lambda>k. k) [] (filter (\<lambda>k. k \<noteq> Num NaN) ks))"

definition group_values :: "cell list \<Rightarrow> 'a list \<Rightarrow> cell \<Rightarrow> 'a list" where
  "group_values ks vs k = map snd (filter (\<lambda>p. fst p = k) (zip ks vs))"

fun collect :: "(error + 'a) list \<Rightarrow> error + 'a list" where
  "collect [] = Inr []"
| "collect (m # ms) = ebind m (\<lambda>x. ebind (collect ms) (\<lambda>xs. Inr (x # xs)))"

definition groupby_sum :: "kernels \<Rightarrow> string \<Rightarrow> string list \<Rightarrow> frame \<Rightarrow> error + frame" where
  "groupby_sum K key cs d =
     ebind (getcol d key) (\<lambda>ks.
     ebind (collect (map (\<lambda>c. ebind (getcol d c) as_floats) cs)) (\<lambda>cols.
       Inr \<lparr> columns = key # cs,
             rows = map (\<lambda>k. (key, k) #
                              map2 (\<lambda>c vs. (c, Num (k_group_sum K c (group_values ks vs k)))) cs cols)
                        (group_keys ks) \<rparr>))"

text \<open>\<open>df.melt(id_vars=i, value_vars=vs, var_name=n, value_name=v)\<close>: for each of the value
  columns in turn, one row per row of the table.\<close>

definition melt :: "string \<Rightarrow> string list \<Rightarrow> string \<Rightarrow> string \<Rightarrow> frame \<Rightarrow> error + frame" where
  "melt i vs n v d =
     (case filter (\<lambda>c. c \<notin> set (columns d)) (i # vs) of
        c # cs \<Rightarrow> Inl (KeyError c)
      | [] \<Rightarrow> Inr \<lparr> columns = [i, n, v],
                    rows = concat (map (\<lambda>c. map (\<lambda>r. [(i, cell_at r i), (n, Str c), (v, cell_at r c)])
                                             (rows d)) vs) \<rparr>)"

text \<open>
  \<open>df[[a, b]].corr()\<close>: the two columns are converted to float64, which raises
  ValueError on a string, and pandas computes the matrix of their correlations.
\<close>

definition two_columns :: "string \<Rightarrow> string \<Rightarrow> frame \<Rightarrow> error + frame" where
  "two_columns a b d =
     ebind (getcol d a) (\<lambda>xs. ebind (getcol d b) (\<lambda>ys.
       Inr \<lparr> columns = [a, b], rows = map2 (\<lambda>x y. [(a, x), (b, y)]) xs ys \<rparr>))"

fun to_float :: "cell \<Rightarrow> error + fl" where
  "to_float (Num a) = Inr a"
| "to_float (Str s) = Inl ValueError"

definition corr :: "kernels \<Rightarrow> string \<Rightarrow> string \<Rightarrow> frame \<Rightarrow> error + fl list list" where
  "corr K a b d =
     ebind (getcol d a) (\<lambda>xs. ebind (getcol d b) (\<lambda>ys.
     ebind (collect (map to_float xs)) (\<lambda>us.
     ebind (collect (map to_float ys)) (\<lambda>vs.
     k_corr K us vs))))"

text \<open>
  plotly express. A chart made from a table and from names of its columns: plotly
  checks the table against the names, and what it refuses depends on the kind of chart
  and on the cells. A chart made from lists of values likewise.
\<close>

definition px :: "kernels \<Rightarrow> string \<Rightarrow> frame \<Rightarrow> error + frame" where
  "px K title d = (case k_px K title d of Some e \<Rightarrow> Inl e | None \<Rightarrow> Inr d)"

definition px_values :: "kernels \<Rightarrow> string \<Rightarrow> cell list \<Rightarrow> error + cell list" where
  "px_values K title vs = (case k_px_values K title vs of Some e \<Rightarrow> Inl e | None \<Rightarrow> Inr vs)"

definition px_imshow :: "kernels \<Rightarrow> fl list list \<Rightarrow> error + fl list list" where
  "px_imshow K m = (case k_imshow K m of Some e \<Rightarrow> Inl e | None \<Rightarrow> Inr m)"

text \<open>\<open>px.pie(table, names=n, values=v)\<close>: plotly looks the two columns up in the
  table.\<close>

definition px_columns :: "string list \<Rightarrow> frame \<Rightarrow> error + frame" where
  "px_columns cs d = (if set cs \<subseteq> set (columns d) then Inr d else Inl ValueError)"


section \<open>The state of the process\<close>

text \<open>
  DataFrames are objects: a variable holds a reference, and an assignment to a column
  changes the object for everyone who holds it. The heap lists the objects made so far;
  a reference is a position in it. The debug output of the callback is kept as well.
\<close>

datatype line = SelectedProvider string | FilteredShape nat nat

record pystate =
  heap :: "frame list"
  stdout :: "line list"

type_synonym 'a py = "pystate \<Rightarrow> (error + 'a) \<times> pystate"

definition ret :: "'a \<Rightarrow> 'a py" where
  "ret x = (\<lambda>s. (Inr x, s))"

definition pbind :: "'a py \<Rightarrow> ('a \<Rightarrow> 'b py) \<Rightarrow> 'b py" where
  "pbind m f = (\<lambda>s. case m s of (Inl e, s') \<Rightarrow> (Inl e, s') | (Inr x, s') \<Rightarrow> f x s')"

text \<open>A computation without effect that may raise.\<close>

definition lift :: "error + 'a \<Rightarrow> 'a py" where
  "lift m = (\<lambda>s. (m, s))"

text \<open>A new object.\<close>

definition new_frame :: "frame \<Rightarrow> nat py" where
  "new_frame d = (\<lambda>s. (Inr (length (heap s)), s\<lparr>heap := heap s @ [d]\<rparr>))"

text \<open>The object behind a reference.\<close>

definition load :: "nat \<Rightarrow> frame py" where
  "load r = (\<lambda>s. (Inr (heap s ! r), s))"

text \<open>A pandas method that leaves its table alone and returns a new one.\<close>

definition call :: "(frame \<Rightarrow> error + frame) \<Rightarrow> nat \<Rightarrow> nat py" where
  "call f r = pbind (load r) (\<lambda>d. pbind (lift (f d)) new_frame)"

text \<open>A statement that changes the table behind the reference, such as \<open>df[c] = ...\<close>.\<close>

definition modify :: "(frame \<Rightarrow> error + frame) \<Rightarrow> nat \<Rightarrow> unit py" where
  "modify f r =
     pbind (load r) (\<lambda>d. pbind (lift (f d)) (\<lambda>d' s. (Inr (), s\<lparr>heap := (heap s)[r := d']\<rparr>)))"

definition print :: "line \<Rightarrow> unit py" where
  "print l = (\<lambda>s. (Inr (), s\<lparr>stdout := stdout s @ [l]\<rparr>))"

definition initial :: pystate where
  "initial = \<lparr> heap = [], stdout = [] \<rparr>"

section \<open>Start of the module (app.py, lines 8 to 58)\<close>

text \<open>
  \<open>csv\<close> is what \<open>read_csv\<close> returned. The seven columns are assigned to that very
  table; an exception ends the process, so the table is written once the seven are
  computed. Line 24 sorts by \<open>Combined_Rank\<close> and line 58 reads \<open>Provider Name\<close> for the
  dropdown: the module does not start on a table without them. The result is the
  reference held by the global \<open>data\<close>.
\<close>

definition module_init :: "kernels \<Rightarrow> frame \<Rightarrow> nat py" where
  "module_init K csv =
     pbind (new_frame csv) (\<lambda>data.
     pbind (modify (add_calculated_columns K) data) (\<lambda>_.
     pbind (call (sort_values K ''Combined_Rank'' True) data) (\<lambda>sorted.
     pbind (call (head 10) sorted) (\<lambda>top_providers.
     pbind (load data) (\<lambda>d.
     pbind (lift (getcol d ''Provider Name'')) (\<lambda>names.
     ret data))))))"

section \<open>The callback \<open>render_content\<close> (app.py, lines 102 to 301)\<close>

text \<open>
  What the callback returns, without layout and styling: the kind of component and the
  data it was made from. A chart carries the table, the matrix or the values handed to
  plotly; the summary carries the six numbers of its cards.
\<close>

datatype artifact =
    DataTable "row list"
  | ReferralBarAll frame
  | ReferralBarOne "cell list"
  | Heatmap "fl list list"
  | ErrorText string
  | PieTop frame "rat list"
  | PieOutcome "cell list"
  | Scatter frame
  | KpiBar frame
  | SummaryCards fl fl fl fl fl fl

text \<open>Lines 103 to 106.\<close>

definition filter_stage :: "nat \<Rightarrow> string \<Rightarrow> nat py" where
  "filter_stage data selected_provider =
     (if selected_provider = ''All'' then call Inr data
      else pbind (call (select_eq ''Provider Name'' selected_provider) data) (call Inr))"

text \<open>Lines 124 to 168.\<close>

definition tab_bar :: "kernels \<Rightarrow> nat \<Rightarrow> nat \<Rightarrow> string \<Rightarrow> artifact option py" where
  "tab_bar K data filtered_data selected_provider =
     (if selected_provider = ''All'' then
        pbind (call (groupby_sum K ''Provider Name''
                 [''Nhs1 Recommend To Ae SUM'', ''Nhs1 Recommend To Primcare SUM'',
                  ''Nhs1 Answered Calls SUM'']) data) (\<lambda>provider_stats.
        pbind (modify (assign_quotient K ''A&E_Referral_Rate''
                 ''Nhs1 Recommend To Ae SUM'' ''Nhs1 Answered Calls SUM'') provider_stats) (\<lambda>_.
        pbind (modify (assign_quotient K ''PrimaryCare_Referral_Rate''
                 ''Nhs1 Recommend To Primcare SUM'' ''Nhs1 Answered Calls SUM'') provider_stats) (\<lambda>_.
        pbind (call (melt ''Provider Name'' [''A&E_Referral_Rate'', ''PrimaryCare_Referral_Rate'']
                 ''Referral Type'' ''Rate'') provider_stats) (\<lambda>provider_stats_melted.
        pbind (load provider_stats_melted) (\<lambda>m.
        pbind (lift (px K ''Referral Analysis Across All Providers'' m)) (\<lambda>m.
        ret (Some (ReferralBarAll m))))))))
      else
        pbind (load filtered_data) (\<lambda>fd.
        pbind (lift (column_sum K fd ''Nhs1 Recommend To Ae SUM'')) (\<lambda>ae.
        pbind (lift (column_sum K fd ''Nhs1 Recommend To Primcare SUM'')) (\<lambda>primcare.
        pbind (lift (column_sum K fd ''Nhs1 Answered Calls SUM'')) (\<lambda>answered.
        pbind (lift (scalar_div K ae answered)) (\<lambda>a_e_rate.
        pbind (lift (scalar_div K primcare answered)) (\<lambda>primary_rate.
        pbind (lift (px_values K (''Referral Analysis for '' @ selected_provider)
                 [a_e_rate, primary_rate])) (\<lambda>vs.
        ret (Some (ReferralBarOne vs))))))))))"

text \<open>Lines 170 to 182.\<close>

definition tab_heatmap :: "kernels \<Rightarrow> nat \<Rightarrow> artifact option py" where
  "tab_heatmap K filtered_data =
     pbind (load filtered_data) (\<lambda>fd.
       if ''Ave_Wtransfer_Time_Minutes'' \<in> set (columns fd)
          \<and> ''Nhs1 Amb Dispatches SUM'' \<in> set (columns fd)
       then
         pbind (call (two_columns ''Ave_Wtransfer_Time_Minutes'' ''Nhs1 Amb Dispatches SUM'')
                  filtered_data) (\<lambda>sub.
         pbind (load sub) (\<lambda>t.
         pbind (lift (corr K ''Ave_Wtransfer_Time_Minutes'' ''Nhs1 Amb Dispatches SUM'' t)) (\<lambda>m.
         pbind (lift (px_imshow K m)) (\<lambda>m.
         ret (Some (Heatmap m))))))
       else ret (Some (ErrorText ''Error: Missing necessary columns for correlation analysis.'')))"

text \<open>Lines 184 to 205. \<open>pull\<close> is the list \<open>[0.1 if i == 0 else 0 for i in range(n)]\<close>.\<close>

definition pull :: "nat \<Rightarrow> rat list" where
  "pull n = map (\<lambda>i. if i = 0 then 1 / 10 else 0) [0..<n]"

definition tab_pie :: "kernels \<Rightarrow> nat \<Rightarrow> nat \<Rightarrow> string \<Rightarrow> artifact option py" where
  "tab_pie K data filtered_data selected_provider =
     (if selected_provider = ''All'' then
        pbind (call (dropna ''Abandonment Rate'') data) (\<lambda>top10_abandon.
        pbind (call (select_pos ''Abandonment Rate'') top10_abandon) (\<lambda>top10_abandon.
        pbind (call (sort_values K ''Abandonment Rate'' False) top10_abandon) (\<lambda>sorted.
        pbind (call (drop_duplicates ''Provider Name'') sorted) (\<lambda>deduplicated.
        pbind (call (head 10) deduplicated) (\<lambda>top10_abandon.
        pbind (load top10_abandon) (\<lambda>t.
        pbind (lift (px_columns [''Provider Name'', ''Abandonment Rate''] t)) (\<lambda>t.
        ret (Some (PieTop t (pull (length (rows t))))))))))))
      else
        pbind (load filtered_data) (\<lambda>fd.
        pbind (lift (column_sum K fd ''Nhs1 Abandoned Calls SUM'')) (\<lambda>abandoned.
        pbind (lift (column_sum K fd ''Nhs1 Answered Calls SUM'')) (\<lambda>answered.
        pbind (lift (px_values K (''Call Outcomes for '' @ selected_provider)
                 [abandoned, answered])) (\<lambda>vs.
        ret (Some (PieOutcome vs)))))))"

text \<open>Lines 207 to 227.\<close>

definition tab_scatter :: "kernels \<Rightarrow> nat \<Rightarrow> string \<Rightarrow> artifact option py" where
  "tab_scatter K data selected_provider =
     pbind (filter_stage data selected_provider) (\<lambda>filtered_data.
     pbind (load filtered_data) (\<lambda>fd.
     pbind (lift (px K (if selected_provider = ''All''
                        then ''Calls Offered vs. Ambulance Dispatches (Per 1,000 Residents)''
                        else ''Call Analysis for '' @ selected_provider) fd)) (\<lambda>fd.
     ret (Some (Scatter fd)))))"

text \<open>Lines 229 to 276.\<close>

definition tab_bar1 :: "kernels \<Rightarrow> nat \<Rightarrow> string \<Rightarrow> artifact option py" where
  "tab_bar1 K data selected_provider =
     (if selected_provider = ''All'' then
        pbind (call (sort_values K ''Combined_Rank'' True) data) (\<lambda>sorted.
        pbind (call (head 10) sorted) (\<lambda>top_providers.
        pbind (load top_providers) (\<lambda>t.
        pbind (lift (px K ''Top 10 Providers by Performance (Combined KPIs)'' t)) (\<lambda>t.
        ret (Some (KpiBar t))))))
      else
        pbind (call (select_eq ''Provider Name'' selected_provider) data) (\<lambda>filtered_data.
        pbind (load filtered_data) (\<lambda>fd.
        pbind (lift (px K (''Performance KPIs for '' @ selected_provider) fd)) (\<lambda>fd.
        ret (Some (KpiBar fd))))))"

text \<open>Lines 278 to 301: the six values, then the six format specifications.\<close>

definition summary_cards :: "kernels \<Rightarrow> frame \<Rightarrow> error + artifact" where
  "summary_cards K d =
     ebind (column_sum K d ''Nhs1 Number Calls Offered SUM'') (\<lambda>total_calls.
     ebind (column_mean K d ''Abandonment Rate'') (\<lambda>mean_rate.
     ebind (column_sum K d ''Total_Cost'') (\<lambda>total_cost.
     ebind (column_mean K d ''Cost_Per_Answered_Call'') (\<lambda>avg_cost.
     ebind (column_sum K d ''Nhs1 Calls Through 111 SUM'') (\<lambda>total_calls_through_111.
     ebind (column_sum K d ''Nhs1 Population SUM'') (\<lambda>total_population.
     ebind (format_number total_calls) (\<lambda>card1.
     ebind (format_number total_cost) (\<lambda>card3.
     ebind (format_number total_calls_through_111) (\<lambda>card5.
     ebind (format_number total_population) (\<lambda>card6.
     Inr (SummaryCards card1 (fmul K mean_rate (Fin 100)) card3 avg_cost card5 card6)))))))))))"

definition tab_summary :: "kernels \<Rightarrow> nat \<Rightarrow> nat \<Rightarrow> string \<Rightarrow> artifact option py" where
  "tab_summary K data filtered_data selected_provider =
     (if selected_provider = ''All'' then
        pbind (load data) (\<lambda>d.
        pbind (lift (summary_cards K d)) (\<lambda>cards.
        ret (Some cards)))
      else
        pbind (load filtered_data) (\<lambda>fd.
        pbind (lift (summary_cards K fd)) (\<lambda>cards.
        ret (Some cards))))"

text \<open>
  The callback. \<open>data\<close> is the reference held by the global of that name; the other
  variables are local. A tab that no branch names falls out of the function, which
  then returns \<open>None\<close>.
\<close>

definition render_content :: "kernels \<Rightarrow> nat \<Rightarrow> string \<Rightarrow> string \<Rightarrow> artifact option py" where
  "render_content K data tab selected_provider =
     pbind (filter_stage data selected_provider) (\<lambda>filtered_data.
     pbind (print (SelectedProvider selected_provider)) (\<lambda>_.
     pbind (load filtered_data) (\<lambda>fd.
     pbind (print (FilteredShape (length (rows fd)) (length (columns fd)))) (\<lambda>_.
       if tab = ''tab-table'' then
         pbind (load filtered_data) (\<lambda>fd. ret (Some (DataTable (rows fd))))
       else if tab = ''tab-bar'' then tab_bar K data filtered_data selected_provider
       else if tab = ''tab-heatmap'' then tab_heatmap K filtered_data
       else if tab = ''tab-pie'' then tab_pie K data filtered_data selected_provider
       else if tab = ''tab-scatter'' then tab_scatter K data selected_provider
       else if tab = ''tab-bar1'' then tab_bar1 K data selected_provider
       else if tab = ''tab-summary'' then tab_summary K data filtered_data selected_provider
       else ret None))))"

text \<open>
  The process after a sequence of callbacks, each with its tab and its provider. An
  exception ends the callback in which it is raised, not the process.
\<close>

fun serve :: "kernels \<Rightarrow> nat \<Rightarrow> (string \<times> string) list \<Rightarrow> pystate \<Rightarrow> pystate" where
  "serve K data [] s = s"
| "serve K data (c # cs) s = serve K data cs (snd (render_content K data (fst c) (snd c) s))"

text \<open>
  Two notions for the proofs about the heap. A computation keeps the first \<open>n\<close> objects
  when it leaves them as they are, whatever it adds behind them; it is fresh above \<open>n\<close>
  when the reference it returns is none of the first \<open>n\<close>.
\<close>

definition keeps :: "nat \<Rightarrow> 'a py \<Rightarrow> bool" where
  "keeps n m \<longleftrightarrow>
     (\<forall>s. n \<le> length (heap s) \<longrightarrow>
        take n (heap (snd (m s))) = take n (heap s) \<and> n \<le> length (heap (snd (m s))))"

definition fresh :: "nat \<Rightarrow> nat py \<Rightarrow> bool" where
  "fresh n m \<longleftrightarrow> (\<forall>s r s'. n \<le> length (heap s) \<longrightarrow> m s = (Inr r, s') \<longrightarrow> n \<le> r)"

section \<open>The aggregates in the words of the specification\<close>

text \<open>The number in a cell; a string has none.\<close>

fun float_of :: "cell \<Rightarrow> fl" where
  "float_of (Num a) = a"
| "float_of (Str s) = NaN"

text \<open>The rows that a provider selector stands for, and the cells that some rows have
  in a column.\<close>

definition subset_rows :: "frame \<Rightarrow> string \<Rightarrow> row list" where
  "subset_rows d sel =
     (if sel = ''All'' then rows d
      else filter (\<lambda>r. cell_at r ''Provider Name'' = Str sel) (rows d))"

definition column_of :: "row list \<Rightarrow> string \<Rightarrow> cell list" where
  "column_of rs c = map (\<lambda>r. cell_at r c) rs"

text \<open>
  The six aggregates of the Summary view over some rows: sum of offered calls, mean
  abandonment rate times 100, sum of total cost, mean cost per answered call, sum of 111
  calls, sum of population, where sum and mean are those of pandas. There are none when
  pandas raises, or when a sum is not a number.
\<close>

definition aggregates :: "kernels \<Rightarrow> row list \<Rightarrow> error + artifact" where
  "aggregates K rs =
     ebind (k_sum K ''Nhs1 Number Calls Offered SUM'' (column_of rs ''Nhs1 Number Calls Offered SUM''))
       (\<lambda>offered.
     ebind (k_mean K ''Abandonment Rate'' (column_of rs ''Abandonment Rate'')) (\<lambda>rate.
     ebind (k_sum K ''Total_Cost'' (column_of rs ''Total_Cost'')) (\<lambda>cost.
     ebind (k_mean K ''Cost_Per_Answered_Call'' (column_of rs ''Cost_Per_Answered_Call''))
       (\<lambda>cost_per_call.
     ebind (k_sum K ''Nhs1 Calls Through 111 SUM'' (column_of rs ''Nhs1 Calls Through 111 SUM''))
       (\<lambda>through_111.
     ebind (k_sum K ''Nhs1 Population SUM'' (column_of rs ''Nhs1 Population SUM'')) (\<lambda>population.
     ebind (format_number offered) (\<lambda>n1.
     ebind (format_number cost) (\<lambda>n3.
     ebind (format_number through_111) (\<lambda>n5.
     ebind (format_number population) (\<lambda>n6.
     Inr (SummaryCards n1 (fmul K rate (Fin 100)) n3 cost_per_call n5 n6)))))))))))"

text \<open>The sum of a column over the rows of one provider, as \<open>groupby\<close> forms it.\<close>

definition group_total :: "kernels \<Rightarrow> frame \<Rightarrow> cell \<Rightarrow> string \<Rightarrow> fl" where
  "group_total K d k c =
     k_group_sum K c (map (\<lambda>r. float_of (cell_at r c))
                        (filter (\<lambda>r. cell_at r ''Provider Name'' = k) (rows d)))"

text \<open>A row of the long form of the referral chart: provider, referral type, and the
  summed referrals of the provider over its summed answered calls.\<close>

definition referral_row :: "kernels \<Rightarrow> frame \<Rightarrow> string \<Rightarrow> string \<Rightarrow> cell \<Rightarrow> row" where
  "referral_row K d t c k =
     [(''Provider Name'', k), (''Referral Type'', Str t),
      (''Rate'', Num (fdiv K (group_total K d k c) (group_total K d k ''Nhs1 Answered Calls SUM'')))]"

section \<open>Example tables\<close>

text \<open>
  For the examples: libraries whose arithmetic is exact on the rationals, whose sort
  leaves rows of equal key in table order, and whose plotly accepts what it is given.
  Sums and means leave out missing cells; the sum of a column with a string is the
  strings joined. The correlation is that of columns whose points lie on a line, the
  only ones the examples use.
\<close>

definition exact_sum :: "fl list \<Rightarrow> fl" where
  "exact_sum vs =
     (if PInf \<in> set vs \<and> NInf \<in> set vs then NaN
      else if PInf \<in> set vs then PInf
      else if NInf \<in> set vs then NInf
      else Fin (sum_list (map (\<lambda>v. case v of Fin a \<Rightarrow> a | _ \<Rightarrow> 0) vs)))"

definition exact_mean :: "fl list \<Rightarrow> fl" where
  "exact_mean vs =
     (case exact_sum vs of
        Fin a \<Rightarrow> (if filter (\<lambda>v. v \<noteq> NaN) vs = [] then NaN
                  else Fin (a / of_nat (length (filter (\<lambda>v. v \<noteq> NaN) vs))))
      | v \<Rightarrow> v)"

definition on_a_line :: "fl list \<Rightarrow> fl list \<Rightarrow> fl" where
  "on_a_line xs ys =
     (case (xs, ys) of
        (Fin a # Fin b # _, Fin c # Fin d # _) \<Rightarrow>
          (if a = b \<or> c = d then NaN else if (a < b) = (c < d) then Fin 1 else Fin (- 1))
      | _ \<Rightarrow> NaN)"

definition exact :: kernels where
  "exact =
     \<lparr> k_quot = (\<lambda>a b. Fin (a / b)),
       k_plus = (\<lambda>a b. Fin (a + b)),
       k_times = (\<lambda>a b. Fin (a * b)),
       k_sum = (\<lambda>c xs. if list_all is_num xs then Inr (Num (exact_sum (map float_of xs)))
                        else Inr (Str (concat (map (\<lambda>x. case x of Str s \<Rightarrow> s | _ \<Rightarrow> []) xs)))),
       k_mean = (\<lambda>c xs. if list_all is_num xs then Inr (exact_mean (map float_of xs))
                         else Inl TypeError),
       k_group_sum = (\<lambda>c vs. exact_sum vs),
       k_tie = (\<lambda>asc ks i. 0),
       k_corr = (\<lambda>xs ys. Inr [[on_a_line xs xs, on_a_line xs ys],
                               [on_a_line ys xs, on_a_line ys ys]]),
       k_imshow = (\<lambda>m. None),
       k_px = (\<lambda>title d. None),
       k_px_values = (\<lambda>title vs. None) \<rparr>"

text \<open>
  A table with the columns the dashboard names. \<open>scenario\<close> holds the two providers of the
  test scenario: A with 100 calls offered, 80 answered, 20 abandoned and a cost of 800, and
  B with 50 offered, none answered, 50 abandoned and a cost of 500.
\<close>

definition example_columns :: "string list" where
  "example_columns =
     [''Provider Name'', ''Nhs1 Number Calls Offered SUM'', ''Nhs1 Answered Calls SUM'',
      ''Nhs1 Abandoned Calls SUM'', ''Nhs1 Cost Call Handlers SUM'', ''Nhs1 Cost Clinical Staff SUM'',
      ''Nhs1 Recommend To Ae SUM'', ''Nhs1 Recommend To Primcare SUM'', ''Nhs1 Population SUM'',
      ''Nhs1 Amb Dispatches SUM'', ''Nhs1 Calls Through 111 SUM'', ''Combined_Rank'',
      ''Answered_60sec_Rate'', ''Callback_10min_Compliance'']"

definition example_row :: "string \<Rightarrow> fl \<Rightarrow> fl \<Rightarrow> fl \<Rightarrow> fl \<Rightarrow> fl \<Rightarrow> row" where
  "example_row name offered answered abandoned cost rank =
     [(''Provider Name'', Str name),
      (''Nhs1 Number Calls Offered SUM'', Num offered),
      (''Nhs1 Answered Calls SUM'', Num answered),
      (''Nhs1 Abandoned Calls SUM'', Num abandoned),
      (''Nhs1 Cost Call Handlers SUM'', Num cost),
      (''Nhs1 Cost Clinical Staff SUM'', Num (Fin 0)),
      (''Nhs1 Recommend To Ae SUM'', Num (Fin 8)),
      (''Nhs1 Recommend To Primcare SUM'', Num (Fin 40)),
      (''Nhs1 Population SUM'', Num (Fin 2000)),
      (''Nhs1 Amb Dispatches SUM'', Num (Fin 5)),
      (''Nhs1 Calls Through 111 SUM'', Num (Fin 30)),
      (''Combined_Rank'', Num rank),
      (''Answered_60sec_Rate'', Num (Fin 90)),
      (''Callback_10min_Compliance'', Num (Fin 70))]"

definition example_table :: "row list \<Rightarrow> frame" where
  "example_table rs = \<lparr> columns = example_columns, rows = rs \<rparr>"

definition scenario :: frame where
  "scenario = example_table
     [example_row ''A'' (Fin 100) (Fin 80) (Fin 20) (Fin 800) (Fin 2),
      example_row ''B'' (Fin 50) (Fin 0) (Fin 50) (Fin 500) (Fin 1)]"

text \<open>One provider whose call-handler cost is missing in the file.\<close>

definition missing_cost :: frame where
  "missing_cost = example_table [example_row ''A'' (Fin 100) (Fin 80) (Fin 20) NaN (Fin 1)]"

text \<open>A table in which one provider bears the name that the dropdown uses for
  \<open>All Providers\<close>.\<close>

definition all_named :: frame where
  "all_named = example_table
     [example_row ''All'' (Fin 100) (Fin 80) (Fin 20) (Fin 800) (Fin 2),
      example_row ''B'' (Fin 50) (Fin 0) (Fin 50) (Fin 500) (Fin 1)]"

text \<open>A table with two rows of the same provider.\<close>

definition same_provider_twice :: frame where
  "same_provider_twice = example_table
     [example_row ''A'' (Fin 100) (Fin 80) (Fin 20) (Fin 800) (Fin 2),
      example_row ''A'' (Fin 50) (Fin 0) (Fin 50) (Fin 500) (Fin 1)]"

text \<open>The scenario without the column of the calls through 111.\<close>

definition without_column :: "string \<Rightarrow> frame \<Rightarrow> frame" where
  "without_column c d =
     \<lparr> columns = filter (\<lambda>c'. c' \<noteq> c) (columns d),
       rows = map (filter (\<lambda>p. fst p \<noteq> c)) (rows d) \<rparr>"

definition no_111 :: frame where
  "no_111 = without_column ''Nhs1 Calls Through 111 SUM'' scenario"




text \<open>
  Thirteen rows of twelve providers, ranked from 13 down to 1 in table order; provider K
  has two rows. The abandoned calls, of 100 offered, rise and fall along the table, and
  provider A has none.
\<close>

definition ranked :: frame where
  "ranked = example_table
     (map (\<lambda>(name, abandoned, rank). example_row name (Fin 100) (Fin 80) (Fin abandoned) (Fin 800) (Fin rank))
        [(''A'', 0, 13), (''B'', 10, 12), (''C'', 20, 11), (''D'', 30, 10), (''E'', 40, 9),
         (''F'', 50, 8), (''G'', 45, 7), (''H'', 35, 6), (''I'', 25, 5), (''J'', 15, 4),
         (''K'', 5, 3), (''K'', 60, 2), (''L'', 55, 1)])"

text \<open>The table of a successful computation, the empty table otherwise.\<close>

definition the_frame :: "error + frame \<Rightarrow> frame" where
  "the_frame m = (case m of Inl e \<Rightarrow> \<lparr> columns = [], rows = [] \<rparr> | Inr d \<Rightarrow> d)"

section \<open>The Metric Deriver works row by row\<close>

lemma those_map_conv:
  "those (map f xs) = (if \<forall>x\<in>set xs. f x \<noteq> None then Some (map (\<lambda>x. the (f x)) xs) else None)"
  by (induction xs) (auto split: option.splits)

lemma map2_same: "map2 f (map g xs) (map h xs) = map (\<lambda>x. f (g x) (h x)) xs"
  by (induction xs) auto

lemma cell_at_update: "cell_at (AList.update c v r) c' = (if c' = c then v else cell_at r c')"
  by (simp add: cell_at_def update_conv')

lemma setcol_map: "setcol d c (map g (rows d)) =
   \<lparr> columns = (if c \<in> set (columns d) then columns d else columns d @ [c]),
     rows = map (\<lambda>r. AList.update c (g r) r) (rows d) \<rparr>"
proof -
  have "map2 (\<lambda>r v. AList.update c v r) xs (map g xs) = map (\<lambda>r. AList.update c (g r) r) xs" for xs
    by (induction xs) auto
  then show ?thesis by (simp add: setcol_def)
qed

lemma series_op_same:
  "series_op f (map g xs) (map h xs) =
     (if \<forall>x\<in>set xs. f (g x) (h x) \<noteq> None then Inr (map (\<lambda>x. the (f (g x) (h x))) xs)
      else Inl TypeError)"
  unfolding series_op_def map2_same those_map_conv by simp

lemma series_div_scalar_same:
  "series_div_scalar K (map g xs) k =
     (if \<forall>x\<in>set xs. cell_div K (g x) (Num (Fin k)) \<noteq> None
      then Inr (map (\<lambda>x. the (cell_div K (g x) (Num (Fin k)))) xs)
      else Inl TypeError)"
  unfolding series_div_scalar_def map_map comp_def those_map_conv by simp

lemma assign_quotient_rowwise:
  "assign_quotient K t a b = rowwise [a, b] t (\<lambda>r. cell_div K (cell_at r a) (cell_at r b))"
  by (rule ext)
     (auto simp: assign_quotient_def ebind_def getcol_def series_op_same setcol_map rowwise_def)

lemma assign_sum_rowwise:
  "assign_sum K t a b = rowwise [a, b] t (\<lambda>r. cell_add K (cell_at r a) (cell_at r b))"
  by (rule ext)
     (auto simp: assign_sum_def ebind_def getcol_def series_op_same setcol_map rowwise_def)

lemma assign_quotient_sanitized_rowwise:
  "assign_quotient_sanitized K t a b =
     rowwise [a, b] t (\<lambda>r. map_option (\<lambda>q. fillna (replace_inf q)) (cell_div K (cell_at r a) (cell_at r b)))"
  by (rule ext)
     (auto simp: assign_quotient_sanitized_def ebind_def getcol_def series_op_same rowwise_def
        setcol_map comp_def option.map_sel cong: map_cong)

lemma per_1k_conv:
  "per_1k K x p = (if cell_div K p (Num (Fin 1000)) = None then None
                 else cell_div K x (the (cell_div K p (Num (Fin 1000)))))"
  by (auto simp: per_1k_def split: option.splits)

lemma assign_per_1k_rowwise:
  "assign_per_1k K t a b = rowwise [a, b] t (\<lambda>r. per_1k K (cell_at r a) (cell_at r b))"
proof (rule ext)
  fix d
  have *: "series_op (cell_div K) (map (\<lambda>r. cell_at r a) xs)
             (map (\<lambda>x. the (cell_div K (cell_at x b) (Num (Fin 1000)))) xs) =
           (if \<forall>x\<in>set xs. cell_div K (cell_at x a) (the (cell_div K (cell_at x b) (Num (Fin 1000)))) \<noteq> None
            then Inr (map (\<lambda>x. the (cell_div K (cell_at x a) (the (cell_div K (cell_at x b) (Num (Fin 1000)))))) xs)
            else Inl TypeError)" for xs
    by (rule series_op_same)
  show "assign_per_1k K t a b d = rowwise [a, b] t (\<lambda>r. per_1k K (cell_at r a) (cell_at r b)) d"
    by (auto simp: assign_per_1k_def ebind_def getcol_def series_div_scalar_same * rowwise_def per_1k_conv
        setcol_map cong: map_cong)
qed


lemma rowwise_Inr:
  assumes "rowwise need t g d = Inr d'"
  shows "set need \<subseteq> set (columns d)" and "\<forall>r\<in>set (rows d). g r \<noteq> None"
    and "columns d' = (if t \<in> set (columns d) then columns d else columns d @ [t])"
    and "rows d' = map (\<lambda>r. AList.update t (the (g r)) r) (rows d)"
proof -
  from assms have f: "filter (\<lambda>c. c \<notin> set (columns d)) need = []"
    by (auto simp: rowwise_def split: list.splits)
  then show "set need \<subseteq> set (columns d)" by (auto simp: filter_empty_conv)
  from assms f show "\<forall>r\<in>set (rows d). g r \<noteq> None"
    by (auto simp: rowwise_def split: if_splits)
  from assms f show "columns d' = (if t \<in> set (columns d) then columns d else columns d @ [t])"
    by (auto simp: rowwise_def split: if_splits)
  from assms f show "rows d' = map (\<lambda>r. AList.update t (the (g r)) r) (rows d)"
    by (auto simp: rowwise_def split: if_splits)
qed

lemma rowwise_step:
  assumes "rowwise need t g d = Inr d'"
  shows "map (\<lambda>r. row_step t g (Some r)) (rows d) = map Some (rows d')"
  using rowwise_Inr(2,4)[OF assms] by (auto simp: row_step_def)

lemma take_rows_simps:
  "columns (take_rows p d) = columns d" "rows (take_rows p d) = map (\<lambda>i. rows d ! i) p"
  by (simp_all add: take_rows_def)

lemma set_take_rows:
  assumes "set p = {0..<length (rows d)}"
  shows "set (rows (take_rows p d)) = set (rows d)"
proof -
  have "set (rows (take_rows p d)) = (\<lambda>i. rows d ! i) ` {0..<length (rows d)}"
    using assms by (simp add: take_rows_simps)
  also have "\<dots> = set (rows d)"
    by (metis map_nth list.set_map set_upt)
  finally show ?thesis .
qed

lemma rowwise_take_rows:
  assumes "set p = {0..<length (rows d)}"
  shows "rowwise need t g (take_rows p d) = map_sum id (take_rows p) (rowwise need t g d)"
proof -
  have "map (\<lambda>i. map f (rows d) ! i) p = map (\<lambda>i. f (rows d ! i)) p" for f :: "row \<Rightarrow> row"
    using assms by (intro map_cong) auto
  then show ?thesis
    using set_take_rows[OF assms]
    by (auto simp: rowwise_def take_rows_simps comp_def take_rows_def split: list.splits)
qed

lemma rowwise_length:
  "rowwise need t g d = Inr d' \<Longrightarrow> length (rows d') = length (rows d)"
  by (simp add: rowwise_Inr(4))

lemma ebind_rowwise_take_rows:
  assumes "set p = {0..<length (rows d)}"
    and "\<And>d'. length (rows d') = length (rows d) \<Longrightarrow>
            k (take_rows p d') = map_sum id (take_rows p) (k d')"
  shows "ebind (rowwise need t g (take_rows p d)) k =
         map_sum id (take_rows p) (ebind (rowwise need t g d) k)"
proof (cases "rowwise need t g d")
  case (Inl e)
  then show ?thesis by (simp add: rowwise_take_rows[OF assms(1)] ebind_def)
next
  case (Inr d')
  then show ?thesis
    using assms(2)[OF rowwise_length[OF Inr]]
    by (simp add: rowwise_take_rows[OF assms(1)] ebind_def)
qed

lemmas assign_rowwise = assign_quotient_rowwise assign_sum_rowwise
  assign_quotient_sanitized_rowwise assign_per_1k_rowwise

lemma add_calculated_columns_take_rows:
  assumes "set p = {0..<length (rows d)}"
  shows "add_calculated_columns K (take_rows p d) =
         map_sum id (take_rows p) (add_calculated_columns K d)"
  unfolding add_calculated_columns_def assign_rowwise
  by (intro ebind_rowwise_take_rows rowwise_take_rows) (simp_all add: assms)

lemma add_calculated_columns_rows:
  assumes "add_calculated_columns K d0 = Inr d"
  shows "map (derive_row K) (rows d0) = map Some (rows d)"
proof -
  from assms obtain d1 d2 d3 d4 d5 d6 where
    s1: "rowwise [''Nhs1 Abandoned Calls SUM'', ''Nhs1 Number Calls Offered SUM''] ''Abandonment Rate''
          (\<lambda>r. cell_div K (cell_at r ''Nhs1 Abandoned Calls SUM'')
                         (cell_at r ''Nhs1 Number Calls Offered SUM'')) d0 = Inr d1" and
    s2: "rowwise [''Nhs1 Cost Call Handlers SUM'', ''Nhs1 Cost Clinical Staff SUM''] ''Total_Cost''
          (\<lambda>r. cell_add K (cell_at r ''Nhs1 Cost Call Handlers SUM'')
                         (cell_at r ''Nhs1 Cost Clinical Staff SUM'')) d1 = Inr d2" and
    s3: "rowwise [''Total_Cost'', ''Nhs1 Answered Calls SUM''] ''Cost_Per_Answered_Call''
          (\<lambda>r. map_option (\<lambda>q. fillna (replace_inf q))
                 (cell_div K (cell_at r ''Total_Cost'') (cell_at r ''Nhs1 Answered Calls SUM''))) d2 = Inr d3" and
    s4: "rowwise [''Nhs1 Recommend To Ae SUM'', ''Nhs1 Answered Calls SUM''] ''A&E_Referral_Rate''
          (\<lambda>r. cell_div K (cell_at r ''Nhs1 Recommend To Ae SUM'')
                         (cell_at r ''Nhs1 Answered Calls SUM'')) d3 = Inr d4" and
    s5: "rowwise [''Nhs1 Recommend To Primcare SUM'', ''Nhs1 Answered Calls SUM''] ''PrimaryCare_Referral_Rate''
          (\<lambda>r. cell_div K (cell_at r ''Nhs1 Recommend To Primcare SUM'')
                         (cell_at r ''Nhs1 Answered Calls SUM'')) d4 = Inr d5" and
    s6: "rowwise [''Nhs1 Number Calls Offered SUM'', ''Nhs1 Population SUM''] ''Calls_Offered_Per_1k''
          (\<lambda>r. per_1k K (cell_at r ''Nhs1 Number Calls Offered SUM'')
                       (cell_at r ''Nhs1 Population SUM'')) d5 = Inr d6" and
    s7: "rowwise [''Nhs1 Amb Dispatches SUM'', ''Nhs1 Population SUM''] ''Ambulance_Dispatches_Per_1k''
          (\<lambda>r. per_1k K (cell_at r ''Nhs1 Amb Dispatches SUM'')
                       (cell_at r ''Nhs1 Population SUM'')) d6 = Inr d"
    unfolding add_calculated_columns_def assign_rowwise ebind_def
    by (auto split: sum.splits)
  have chain: "map (\<lambda>r. F (row_step t g (Some r))) xs = map F (map Some ys)"
    if "map (\<lambda>r. row_step t g (Some r)) xs = map Some ys" for F :: "row option \<Rightarrow> row option" and t g xs ys
    using that by (metis (no_types, lifting) map_map comp_def map_eq_conv)
  have step: "map (\<lambda>ro. G (row_step t g ro)) (map Some xs) = map G (map Some ys)"
    if "map (\<lambda>r. row_step t g (Some r)) xs = map Some ys" for G :: "row option \<Rightarrow> row option" and t g xs ys
  proof -
    have "map (\<lambda>ro. G (row_step t g ro)) (map Some xs) = map G (map (\<lambda>r. row_step t g (Some r)) xs)"
      by (simp add: comp_def)
    then show ?thesis using that by simp
  qed
  show ?thesis
    unfolding derive_row_def Let_def
    apply (subst chain[OF rowwise_step[OF s1]])
    apply (subst step[OF rowwise_step[OF s2]])
    apply (subst step[OF rowwise_step[OF s3]])
    apply (subst step[OF rowwise_step[OF s4]])
    apply (subst step[OF rowwise_step[OF s5]])
    apply (subst step[OF rowwise_step[OF s6]])
    apply (simp add: comp_def rowwise_step[OF s7])
    done
qed

lemma cell_div_SomeD:
  "cell_div K x y = Some q \<Longrightarrow> \<exists>a b. x = Num a \<and> y = Num b \<and> q = Num (fdiv K a b)"
  by (cases x; cases y) auto

lemma derive_row_cost:
  assumes "derive_row K r0 = Some r"
  shows "\<exists>t a. cell_at r ''Total_Cost'' = Num t \<and> cell_at r ''Nhs1 Answered Calls SUM'' = Num a
           \<and> cell_at r ''Cost_Per_Answered_Call'' = fillna (replace_inf (Num (fdiv K t a)))"
proof -
  from assms obtain l j where
    j: "cell_div K l (cell_at r0 ''Nhs1 Answered Calls SUM'') = Some j" and
    c: "cell_at r ''Total_Cost'' = l"
       "cell_at r ''Nhs1 Answered Calls SUM'' = cell_at r0 ''Nhs1 Answered Calls SUM''"
       "cell_at r ''Cost_Per_Answered_Call'' = fillna (replace_inf j)"
    unfolding derive_row_def Let_def row_step_def
    by (auto split: option.splits simp: cell_at_update)
  from cell_div_SomeD[OF j] c show ?thesis by auto
qed


section \<open>Running the callback\<close>

lemma pbind_ret [simp]: "pbind (ret x) f s = f x s"
  by (simp add: pbind_def ret_def)

lemma pbind_lift [simp]:
  "pbind (lift m) f s = (case m of Inl e \<Rightarrow> (Inl e, s) | Inr x \<Rightarrow> f x s)"
  by (simp add: pbind_def lift_def split: sum.splits)

lemma pbind_load [simp]: "pbind (load r) f s = f (heap s ! r) s"
  by (simp add: pbind_def load_def)

lemma pbind_new_frame [simp]:
  "pbind (new_frame d) f s = f (length (heap s)) (s\<lparr>heap := heap s @ [d]\<rparr>)"
  by (simp add: pbind_def new_frame_def)

lemma pbind_print [simp]: "pbind (print l) f s = f () (s\<lparr>stdout := stdout s @ [l]\<rparr>)"
  by (simp add: pbind_def print_def)

lemma pbind_assoc: "pbind (pbind m f) g = pbind m (\<lambda>x. pbind (f x) g)"
  by (rule ext) (simp add: pbind_def split: prod.splits sum.splits)

lemma pbind_call [simp]:
  "pbind (call g r) f s =
     (case g (heap s ! r) of Inl e \<Rightarrow> (Inl e, s)
      | Inr d \<Rightarrow> f (length (heap s)) (s\<lparr>heap := heap s @ [d]\<rparr>))"
  by (simp add: call_def pbind_assoc split: sum.splits)

lemma pbind_modify [simp]:
  "pbind (modify g r) f s =
     (case g (heap s ! r) of Inl e \<Rightarrow> (Inl e, s)
      | Inr d \<Rightarrow> f () (s\<lparr>heap := (heap s)[r := d]\<rparr>))"
  by (simp add: modify_def pbind_assoc split: sum.splits) (simp add: pbind_def)

lemma ret_run [simp]: "ret x s = (Inr x, s)"
  by (simp add: ret_def)

lemma pbind_filter_stage [simp]:
  "pbind (filter_stage data sel) f s =
     (if sel = ''All'' then f (length (heap s)) (s\<lparr>heap := heap s @ [heap s ! data]\<rparr>)
      else case select_eq ''Provider Name'' sel (heap s ! data) of
             Inl e \<Rightarrow> (Inl e, s)
           | Inr t \<Rightarrow> f (Suc (length (heap s))) (s\<lparr>heap := heap s @ [t, t]\<rparr>))"
  by (simp add: filter_stage_def pbind_assoc nth_append split: sum.splits)

lemma module_init_run:
  "module_init K csv initial =
     (case add_calculated_columns K csv of
        Inl e \<Rightarrow> (Inl e, \<lparr>heap = [csv], stdout = []\<rparr>)
      | Inr d \<Rightarrow>
          (case sort_values K ''Combined_Rank'' True d of
             Inl e \<Rightarrow> (Inl e, \<lparr>heap = [d], stdout = []\<rparr>)
           | Inr t \<Rightarrow>
               (case getcol d ''Provider Name'' of
                  Inl e \<Rightarrow> (Inl e, \<lparr>heap = [d, t, the_frame (head 10 t)], stdout = []\<rparr>)
                | Inr ns \<Rightarrow> (Inr 0, \<lparr>heap = [d, t, the_frame (head 10 t)], stdout = []\<rparr>))))"
  by (simp add: module_init_def initial_def head_def the_frame_def split: sum.splits)


section \<open>The callback changes no object that it did not make\<close>

lemma keeps_ret: "keeps n (ret x)"
  by (simp add: keeps_def)

lemma keeps_lift: "keeps n (lift m)"
  by (simp add: keeps_def lift_def)

lemma keeps_load: "keeps n (load r)"
  by (simp add: keeps_def load_def)

lemma keeps_print: "keeps n (print l)"
  by (simp add: keeps_def print_def)

lemma keeps_new_frame: "keeps n (new_frame d)"
  by (simp add: keeps_def new_frame_def)

lemma fresh_new_frame: "fresh n (new_frame d)"
  by (auto simp: fresh_def new_frame_def)

lemma keeps_pbind:
  assumes "keeps n m" and "\<And>x. keeps n (f x)"
  shows "keeps n (pbind m f)"
  unfolding keeps_def
proof (intro allI impI)
  fix s :: pystate assume n: "n \<le> length (heap s)"
  obtain res s' where ms: "m s = (res, s')" by (cases "m s")
  from assms(1) n ms have s': "take n (heap s') = take n (heap s)" "n \<le> length (heap s')"
    by (auto simp: keeps_def dest!: spec[of _ s])
  show "take n (heap (snd (pbind m f s))) = take n (heap s) \<and> n \<le> length (heap (snd (pbind m f s)))"
  proof (cases res)
    case (Inl e)
    then show ?thesis using ms s' by (simp add: pbind_def)
  next
    case (Inr x)
    from assms(2)[of x] s'(2) have "take n (heap (snd (f x s'))) = take n (heap s')"
      "n \<le> length (heap (snd (f x s')))"
      by (auto simp: keeps_def)
    then show ?thesis using ms s' Inr by (simp add: pbind_def)
  qed
qed

lemma keeps_pbind_ref:
  assumes "keeps n m" and "fresh n m" and "\<And>r. n \<le> r \<Longrightarrow> keeps n (f r)"
  shows "keeps n (pbind m f)"
  unfolding keeps_def
proof (intro allI impI)
  fix s :: pystate assume n: "n \<le> length (heap s)"
  obtain res s' where ms: "m s = (res, s')" by (cases "m s")
  from assms(1) n ms have s': "take n (heap s') = take n (heap s)" "n \<le> length (heap s')"
    by (auto simp: keeps_def dest!: spec[of _ s])
  show "take n (heap (snd (pbind m f s))) = take n (heap s) \<and> n \<le> length (heap (snd (pbind m f s)))"
  proof (cases res)
    case (Inl e)
    then show ?thesis using ms s' by (simp add: pbind_def)
  next
    case (Inr r)
    with assms(2) n ms have "n \<le> r" by (auto simp: fresh_def)
    from assms(3)[OF this] s'(2) have "take n (heap (snd (f r s'))) = take n (heap s')"
      "n \<le> length (heap (snd (f r s')))"
      by (auto simp: keeps_def)
    then show ?thesis using ms s' Inr by (simp add: pbind_def)
  qed
qed

lemma keeps_call: "keeps n (call g r)"
  unfolding call_def by (intro keeps_pbind keeps_load keeps_lift keeps_new_frame)

lemma fresh_call: "fresh n (call g r)"
  by (auto simp: fresh_def call_def pbind_def load_def lift_def new_frame_def split: sum.splits)

lemma keeps_modify: "n \<le> r \<Longrightarrow> keeps n (modify g r)"
  by (auto simp: keeps_def modify_def pbind_def load_def lift_def split: sum.splits)

lemma keeps_filter_stage: "keeps n (filter_stage data sel)"
  unfolding filter_stage_def by (auto intro!: keeps_pbind keeps_call)

lemma fresh_filter_stage: "fresh n (filter_stage data sel)"
  by (auto simp: fresh_def filter_stage_def call_def pbind_def load_def lift_def new_frame_def
      split: sum.splits if_splits)

lemmas keeps_bind_value =
  keeps_pbind[where 'a = unit] keeps_pbind[where 'a = frame] keeps_pbind[where 'a = fl]
  keeps_pbind[where 'a = artifact] keeps_pbind[where 'a = "cell list"]
  keeps_pbind[where 'a = cell] keeps_pbind[where 'a = "fl list list"]

lemmas keeps_rules =
  keeps_pbind_ref keeps_bind_value keeps_ret keeps_lift keeps_load keeps_print keeps_new_frame
  keeps_call keeps_modify keeps_filter_stage fresh_new_frame fresh_call fresh_filter_stage

lemma keeps_tab_bar: "n \<le> fd \<Longrightarrow> keeps n (tab_bar K data fd sel)"
  unfolding tab_bar_def by (auto intro!: keeps_rules)

lemma keeps_tab_heatmap: "keeps n (tab_heatmap K fd)"
  unfolding tab_heatmap_def by (auto intro!: keeps_rules)

lemma keeps_tab_pie: "keeps n (tab_pie K data fd sel)"
  unfolding tab_pie_def by (auto intro!: keeps_rules)

lemma keeps_tab_scatter: "keeps n (tab_scatter K data sel)"
  unfolding tab_scatter_def by (auto intro!: keeps_rules)

lemma keeps_tab_bar1: "keeps n (tab_bar1 K data sel)"
  unfolding tab_bar1_def by (auto intro!: keeps_rules)

lemma keeps_tab_summary: "keeps n (tab_summary K data fd sel)"
  unfolding tab_summary_def by (auto intro!: keeps_rules)

lemma keeps_render_content: "keeps n (render_content K data tab sel)"
  unfolding render_content_def
  by (intro keeps_rules keeps_tab_bar keeps_tab_heatmap keeps_tab_pie keeps_tab_scatter
        keeps_tab_bar1 keeps_tab_summary if_split[where P="keeps n", THEN iffD2] conjI impI)

lemma heap_render_content:
  "take (length (heap s)) (heap (snd (render_content K data tab sel s))) = heap s"
  using keeps_render_content[of "length (heap s)" K data tab sel] by (simp add: keeps_def)

lemma heap_serve: "take (length (heap s)) (heap (serve K data calls s)) = heap s"
proof (induction calls arbitrary: s)
  case Nil
  show ?case by simp
next
  case (Cons c cs)
  let ?s' = "snd (render_content K data (fst c) (snd c) s)"
  have 1: "take (length (heap s)) (heap ?s') = heap s" by (rule heap_render_content)
  have le: "length (heap s) \<le> length (heap ?s')"
    using keeps_render_content[of "length (heap s)" K data "fst c" "snd c"] by (simp add: keeps_def)
  have "take (length (heap s)) (heap (serve K data cs ?s')) =
        take (length (heap s)) (take (length (heap ?s')) (heap (serve K data cs ?s')))"
    using le by (simp add: min_absorb1)
  also have "\<dots> = take (length (heap s)) (heap ?s')" by (simp only: Cons.IH)
  finally show ?case using 1 by simp
qed

lemma nth_heap_serve: "r < length (heap s) \<Longrightarrow> heap (serve K data calls s) ! r = heap s ! r"
  by (metis heap_serve nth_take)


section \<open>The state in which callbacks run\<close>

lemma pbind_ret_right: "pbind m ret = m"
  by (rule ext) (simp add: pbind_def ret_def split: prod.splits sum.splits)

lemma filter_stage_run:
  "filter_stage data sel s =
     (if sel = ''All'' then (Inr (length (heap s)), s\<lparr>heap := heap s @ [heap s ! data]\<rparr>)
      else case select_eq ''Provider Name'' sel (heap s ! data) of
             Inl e \<Rightarrow> (Inl e, s)
           | Inr t \<Rightarrow> (Inr (Suc (length (heap s))), s\<lparr>heap := heap s @ [t, t]\<rparr>))"
  using pbind_filter_stage[of data sel ret s] by (simp add: pbind_ret_right split: sum.splits)

lemma mask_filter: "map fst (filter snd (zip xs (map P xs))) = filter P xs"
  by (induction xs) auto

lemma select_eq_conv:
  "select_eq c v d =
     (if c \<in> set (columns d) then Inr (d\<lparr>rows := filter (\<lambda>r. cell_at r c = Str v) (rows d)\<rparr>)
      else Inl (KeyError c))"
  by (simp add: select_eq_def getcol_def ebind_def mask_rows_def mask_filter comp_def
        mask_filter[of "rows d" "\<lambda>r. cell_at r c = Str v", unfolded map_map comp_def, simplified])

lemma module_init_Inr:
  assumes "module_init K csv initial = (Inr data, s0)"
  obtains d t where "data = 0" "add_calculated_columns K csv = Inr d"
    "sort_values K ''Combined_Rank'' True d = Inr t" "''Provider Name'' \<in> set (columns d)"
    "heap s0 = [d, t, the_frame (head 10 t)]" "stdout s0 = []"
  using assms unfolding module_init_run
  by (auto split: sum.splits simp: getcol_def split: if_splits)

lemma started:
  assumes "module_init K csv initial = (Inr data, s0)" and "s = serve K data calls s0"
  obtains d t where "add_calculated_columns K csv = Inr d"
    "sort_values K ''Combined_Rank'' True d = Inr t" "''Provider Name'' \<in> set (columns d)"
    "data < length (heap s)" "heap s ! data = d"
proof -
  from module_init_Inr[OF assms(1)] obtain d t where
    d: "data = 0" "add_calculated_columns K csv = Inr d"
    "sort_values K ''Combined_Rank'' True d = Inr t" "''Provider Name'' \<in> set (columns d)"
    "heap s0 = [d, t, the_frame (head 10 t)]"
    by metis
  have tk: "take (length (heap s0)) (heap s) = heap s0"
    unfolding assms(2) by (rule heap_serve)
  have len: "length (heap s0) \<le> length (heap s)"
    using arg_cong[OF tk, of length] by simp
  have "heap s ! 0 = heap s0 ! 0"
    unfolding assms(2) by (rule nth_heap_serve) (simp add: d(5))
  then have "heap s ! 0 = d" by (simp add: d(5))
  moreover have "0 < length (heap s)"
    using len d(5) by (cases "heap s") simp_all
  ultimately have "heap s ! 0 = d" "0 < length (heap s)" by simp_all
  with d that show ?thesis by simp
qed

lemma scenario_init:
  "module_init exact scenario initial = (Inr 0, snd (module_init exact scenario initial))"
proof -
  have "fst (module_init exact scenario initial) = Inr 0" by code_simp
  then show ?thesis by (cases "module_init exact scenario initial") simp
qed

lemma scenario_names:
  "map (\<lambda>r. cell_at r ''Provider Name'') (rows (heap (snd (module_init exact scenario initial)) ! 0))
     = [Str ''A'', Str ''B'']"
  by code_simp


lemma ranked_init:
  "module_init exact ranked initial = (Inr 0, snd (module_init exact ranked initial))"
proof -
  have "fst (module_init exact ranked initial) = Inr 0" by code_simp
  then show ?thesis by (cases "module_init exact ranked initial") simp
qed

lemma same_provider_twice_init:
  "module_init exact same_provider_twice initial
     = (Inr 0, snd (module_init exact same_provider_twice initial))"
proof -
  have "fst (module_init exact same_provider_twice initial) = Inr 0" by code_simp
  then show ?thesis by (cases "module_init exact same_provider_twice initial") simp
qed

section \<open>Sorting and dropping duplicates\<close>

lemma fl_le_total: "fl_le a b \<or> fl_le b a"
  by (cases a; cases b) auto

lemma fl_le_trans: "fl_le a b \<Longrightarrow> fl_le b c \<Longrightarrow> fl_le a c"
  by (cases a; cases b; cases c) auto

lemma cell_le_num:
  "cell_le asc (Num a) (Num b) =
     (b = NaN \<or> (a \<noteq> NaN \<and> (if asc then fl_le a b else fl_le b a)))"
  by (cases a; cases b) auto

lemma cell_le_str_num: "cell_le asc (Str s) (Num b) = (b = NaN \<or> \<not> asc)"
  by (cases b) auto

lemma cell_le_num_str: "cell_le asc (Num a) (Str s) = (a \<noteq> NaN \<and> asc)"
  by (cases a) auto

lemma cell_le_total: "cell_le asc x y \<or> cell_le asc y x"
proof (cases x; cases y)
  fix a b assume "x = Num a" "y = Num b"
  then show ?thesis
    using fl_le_total[of a b] fl_le_total[of b a] by (auto simp: cell_le_num)
next
  fix a s assume "x = Num a" "y = Str s"
  then show ?thesis by (auto simp: cell_le_num_str cell_le_str_num)
next
  fix a s assume "x = Str s" "y = Num a"
  then show ?thesis by (auto simp: cell_le_num_str cell_le_str_num)
next
  fix s t assume "x = Str s" "y = Str t"
  then show ?thesis by auto
qed

lemma cell_le_refl: "cell_le asc x x"
  using cell_le_total[of asc x x] by simp

lemma cell_le_trans: "cell_le asc x y \<Longrightarrow> cell_le asc y z \<Longrightarrow> cell_le asc x z"
proof (cases x; cases y; cases z)
  fix a b c assume "x = Num a" "y = Num b" "z = Num c" "cell_le asc x y" "cell_le asc y z"
  then show ?thesis
    using fl_le_trans[of a b c] fl_le_trans[of c b a] by (auto simp: cell_le_num split: if_splits)
qed (auto simp: cell_le_num cell_le_num_str cell_le_str_num split: if_splits)

lemma set_insort_by: "set (insort_by le x xs) = insert x (set xs)"
  by (induction xs) auto

lemma mset_insort_by: "mset (insort_by le x xs) = add_mset x (mset xs)"
  by (induction xs) auto

lemma mset_sort_by: "mset (sort_by le xs) = mset xs"
  unfolding sort_by_def by (induction xs) (auto simp: mset_insort_by)

lemma set_sort_by: "set (sort_by le xs) = set xs"
  by (metis mset_sort_by set_mset_mset)

lemma length_sort_by: "length (sort_by le xs) = length xs"
  by (metis mset_sort_by size_mset)

lemma sorted_insort_by:
  assumes "\<And>x y. le x y \<or> le y x" and "\<And>x y z. le x y \<Longrightarrow> le y z \<Longrightarrow> le x z"
    and "sorted_wrt le xs"
  shows "sorted_wrt le (insort_by le x xs)"
  using assms(3)
proof (induction xs)
  case Nil
  then show ?case by simp
next
  case (Cons y ys)
  show ?case
  proof (cases "le x y")
    case True
    with Cons.prems assms(2) show ?thesis by auto
  next
    case False
    with assms(1) have "le y x" by blast
    with Cons False show ?thesis by (auto simp: set_insort_by)
  qed
qed

lemma sorted_sort_by:
  assumes "\<And>x y. le x y \<or> le y x" and "\<And>x y z. le x y \<Longrightarrow> le y z \<Longrightarrow> le x z"
  shows "sorted_wrt le (sort_by le xs)"
  unfolding sort_by_def
  by (induction xs) (auto intro: sorted_insort_by[OF assms])

lemma sorted_sort_by_key:
  "sorted_wrt (\<lambda>r r'. cell_le asc (k r) (k r')) (sort_by (\<lambda>r r'. cell_le asc (k r) (k r')) xs)"
proof (rule sorted_sort_by)
  show "cell_le asc (k x) (k y) \<or> cell_le asc (k y) (k x)" for x y
    by (rule cell_le_total)
  show "cell_le asc (k x) (k y) \<Longrightarrow> cell_le asc (k y) (k z) \<Longrightarrow> cell_le asc (k x) (k z)" for x y z
    by (rule cell_le_trans)
qed

lemma row_le_total: "row_le tie asc c x y \<or> row_le tie asc c y x"
  unfolding row_le_def using cell_le_total[of asc "cell_at (snd x) c" "cell_at (snd y) c"]
  by auto

lemma row_le_trans:
  assumes "row_le tie asc c x y" and "row_le tie asc c y z"
  shows "row_le tie asc c x z"
proof -
  let ?x = "cell_at (snd x) c" and ?y = "cell_at (snd y) c" and ?z = "cell_at (snd z) c"
  have xy: "cell_le asc ?x ?y" and yz: "cell_le asc ?y ?z"
    using assms by (auto simp: row_le_def split: if_splits)
  have xz: "cell_le asc ?x ?z" by (rule cell_le_trans[OF xy yz])
  show ?thesis
  proof (cases "cell_le asc ?z ?x")
    case False
    with xz show ?thesis by (simp add: row_le_def)
  next
    case True
    have yx: "cell_le asc ?y ?x" by (rule cell_le_trans[OF yz True])
    have zy: "cell_le asc ?z ?y" by (rule cell_le_trans[OF True xy])
    from assms xy yx yz zy have "tie (fst x) \<le> tie (fst y)" "tie (fst y) \<le> tie (fst z)"
      by (simp_all add: row_le_def)
    with xz True show ?thesis by (simp add: row_le_def)
  qed
qed

lemma row_le_key:
  "row_le tie asc c x y \<Longrightarrow> cell_le asc (cell_at (snd x) c) (cell_at (snd y) c)"
  by (auto simp: row_le_def split: if_splits)

lemma mset_sorted_rows: "mset (sorted_rows tie asc c rs) = mset rs"
proof -
  have z: "map snd (zip [0..<length rs] rs) = rs" by (simp add: map_snd_zip)
  have "mset (map snd (sort_by (row_le tie asc c) (zip [0..<length rs] rs)))
          = mset (map snd (zip [0..<length rs] rs))"
    unfolding mset_map mset_sort_by ..
  then show ?thesis unfolding z by (simp only: sorted_rows_def)
qed

lemma set_sorted_rows: "set (sorted_rows tie asc c rs) = set rs"
  by (metis mset_sorted_rows set_mset_mset)

lemma length_sorted_rows: "length (sorted_rows tie asc c rs) = length rs"
  by (metis mset_sorted_rows size_mset)

lemma sorted_sorted_rows:
  "sorted_wrt (\<lambda>r r'. cell_le asc (cell_at r c) (cell_at r' c)) (sorted_rows tie asc c rs)"
proof -
  have "sorted_wrt (row_le tie asc c) (sort_by (row_le tie asc c) (zip [0..<length rs] rs))"
    by (rule sorted_sort_by) (rule row_le_total, rule row_le_trans)
  then have "sorted_wrt (\<lambda>x y. cell_le asc (cell_at (snd x) c) (cell_at (snd y) c))
               (sort_by (row_le tie asc c) (zip [0..<length rs] rs))"
    by (rule sorted_wrt_mono_rel[rotated]) (rule row_le_key)
  then show ?thesis by (simp add: sorted_rows_def sorted_wrt_map)
qed

lemma set_keep_first: "set (keep_first k seen xs) \<subseteq> set xs"
  by (induction xs arbitrary: seen) auto

lemma keep_first_unseen: "r \<in> set (keep_first k seen xs) \<Longrightarrow> k r \<notin> set seen"
proof (induction xs arbitrary: seen)
  case Nil
  then show ?case by simp
next
  case (Cons x xs)
  show ?case
  proof (cases "k x \<in> set seen")
    case True
    with Cons show ?thesis by simp
  next
    case False
    with Cons.prems have "r = x \<or> r \<in> set (keep_first k (k x # seen) xs)" by simp
    then show ?thesis
    proof
      assume "r = x" with False show ?thesis by simp
    next
      assume "r \<in> set (keep_first k (k x # seen) xs)"
      from Cons.IH[OF this] show ?thesis by simp
    qed
  qed
qed

lemma distinct_keep_first: "distinct (map k (keep_first k seen xs))"
  by (induction xs arbitrary: seen) (auto dest: keep_first_unseen)

lemma keys_keep_first: "k ` set (keep_first k seen xs) = k ` set xs - set seen"
  by (induction xs arbitrary: seen) auto

lemma sorted_keep_first: "sorted_wrt P xs \<Longrightarrow> sorted_wrt P (keep_first k seen xs)"
proof (induction xs arbitrary: seen)
  case Nil
  then show ?case by simp
next
  case (Cons x xs)
  then show ?case using set_keep_first[of k _ xs] by auto
qed

lemma keep_first_is_first:
  assumes "sorted_wrt P xs" and "\<And>x. P x x"
    and "r \<in> set (keep_first k seen xs)" and "r' \<in> set xs" and "k r' = k r"
  shows "P r r'"
  using assms(1,3,4)
proof (induction xs arbitrary: seen)
  case Nil
  then show ?case by simp
next
  case (Cons x xs)
  show ?case
  proof (cases "k x \<in> set seen")
    case True
    with Cons.prems(2) have r: "r \<in> set (keep_first k seen xs)" by simp
    from keep_first_unseen[OF r] True assms(5) Cons.prems(3) have "r' \<in> set xs" by auto
    with Cons r show ?thesis by auto
  next
    case False
    show ?thesis
    proof (cases "r = x")
      case True
      with Cons.prems(1,3) assms(2) show ?thesis by auto
    next
      case neq: False
      with Cons.prems(2) False have r: "r \<in> set (keep_first k (k x # seen) xs)" by simp
      from keep_first_unseen[OF r] have "k r \<noteq> k x" by auto
      with assms(5) Cons.prems(3) have "r' \<in> set xs" by auto
      with Cons.IH[OF _ r] Cons.prems(1) show ?thesis by auto
    qed
  qed
qed


section \<open>The derived table\<close>

lemma add_calculated_columns_columns:
  assumes "add_calculated_columns K d0 = Inr d"
  shows "set (columns d0) \<subseteq> set (columns d)"
    and "{''Nhs1 Abandoned Calls SUM'', ''Nhs1 Number Calls Offered SUM'',
          ''Nhs1 Answered Calls SUM'', ''Nhs1 Recommend To Ae SUM'',
          ''Nhs1 Recommend To Primcare SUM'', ''Nhs1 Population SUM'', ''Nhs1 Amb Dispatches SUM'',
          ''Abandonment Rate'', ''Total_Cost'', ''Cost_Per_Answered_Call'', ''A&E_Referral_Rate'',
          ''PrimaryCare_Referral_Rate'', ''Calls_Offered_Per_1k'', ''Ambulance_Dispatches_Per_1k''}
         \<subseteq> set (columns d)"
proof -
  from assms obtain d1 d2 d3 d4 d5 d6 where
    s1: "rowwise [''Nhs1 Abandoned Calls SUM'', ''Nhs1 Number Calls Offered SUM''] ''Abandonment Rate''
          (\<lambda>r. cell_div K (cell_at r ''Nhs1 Abandoned Calls SUM'')
                         (cell_at r ''Nhs1 Number Calls Offered SUM'')) d0 = Inr d1" and
    s2: "rowwise [''Nhs1 Cost Call Handlers SUM'', ''Nhs1 Cost Clinical Staff SUM''] ''Total_Cost''
          (\<lambda>r. cell_add K (cell_at r ''Nhs1 Cost Call Handlers SUM'')
                         (cell_at r ''Nhs1 Cost Clinical Staff SUM'')) d1 = Inr d2" and
    s3: "rowwise [''Total_Cost'', ''Nhs1 Answered Calls SUM''] ''Cost_Per_Answered_Call''
          (\<lambda>r. map_option (\<lambda>q. fillna (replace_inf q))
                 (cell_div K (cell_at r ''Total_Cost'') (cell_at r ''Nhs1 Answered Calls SUM''))) d2 = Inr d3" and
    s4: "rowwise [''Nhs1 Recommend To Ae SUM'', ''Nhs1 Answered Calls SUM''] ''A&E_Referral_Rate''
          (\<lambda>r. cell_div K (cell_at r ''Nhs1 Recommend To Ae SUM'')
                         (cell_at r ''Nhs1 Answered Calls SUM'')) d3 = Inr d4" and
    s5: "rowwise [''Nhs1 Recommend To Primcare SUM'', ''Nhs1 Answered Calls SUM''] ''PrimaryCare_Referral_Rate''
          (\<lambda>r. cell_div K (cell_at r ''Nhs1 Recommend To Primcare SUM'')
                         (cell_at r ''Nhs1 Answered Calls SUM'')) d4 = Inr d5" and
    s6: "rowwise [''Nhs1 Number Calls Offered SUM'', ''Nhs1 Population SUM''] ''Calls_Offered_Per_1k''
          (\<lambda>r. per_1k K (cell_at r ''Nhs1 Number Calls Offered SUM'')
                       (cell_at r ''Nhs1 Population SUM'')) d5 = Inr d6" and
    s7: "rowwise [''Nhs1 Amb Dispatches SUM'', ''Nhs1 Population SUM''] ''Ambulance_Dispatches_Per_1k''
          (\<lambda>r. per_1k K (cell_at r ''Nhs1 Amb Dispatches SUM'')
                       (cell_at r ''Nhs1 Population SUM'')) d6 = Inr d"
    unfolding add_calculated_columns_def assign_rowwise ebind_def
    by (auto split: sum.splits)
  have grow: "set (columns x) \<subseteq> set (columns y)"
    if "rowwise need t g x = Inr y" for need t g x y
    using rowwise_Inr(3)[OF that] by auto
  have target: "t \<in> set (columns y)"
    if "rowwise need t g x = Inr y" for need t g x y
    using rowwise_Inr(3)[OF that] by auto
  have le6: "set (columns d6) \<subseteq> set (columns d)" by (rule grow[OF s7])
  have le5: "set (columns d5) \<subseteq> set (columns d)" using grow[OF s6] le6 by (rule order_trans)
  have le4: "set (columns d4) \<subseteq> set (columns d)" using grow[OF s5] le5 by (rule order_trans)
  have le3: "set (columns d3) \<subseteq> set (columns d)" using grow[OF s4] le4 by (rule order_trans)
  have le2: "set (columns d2) \<subseteq> set (columns d)" using grow[OF s3] le3 by (rule order_trans)
  have le1: "set (columns d1) \<subseteq> set (columns d)" using grow[OF s2] le2 by (rule order_trans)
  show le0: "set (columns d0) \<subseteq> set (columns d)" using grow[OF s1] le1 by (rule order_trans)
  have "''Nhs1 Abandoned Calls SUM'' \<in> set (columns d)"
       "''Nhs1 Number Calls Offered SUM'' \<in> set (columns d)"
    using rowwise_Inr(1)[OF s1] le0 by auto
  moreover have "''Nhs1 Answered Calls SUM'' \<in> set (columns d)"
    using rowwise_Inr(1)[OF s3] le2 by auto
  moreover have "''Nhs1 Recommend To Ae SUM'' \<in> set (columns d)"
    using rowwise_Inr(1)[OF s4] le3 by auto
  moreover have "''Nhs1 Recommend To Primcare SUM'' \<in> set (columns d)"
    using rowwise_Inr(1)[OF s5] le4 by auto
  moreover have "''Nhs1 Population SUM'' \<in> set (columns d)"
    using rowwise_Inr(1)[OF s6] le5 by auto
  moreover have "''Nhs1 Amb Dispatches SUM'' \<in> set (columns d)"
    using rowwise_Inr(1)[OF s7] le6 by auto
  moreover have "''Abandonment Rate'' \<in> set (columns d)" using target[OF s1] le1 by (rule subsetD[rotated])
  moreover have "''Total_Cost'' \<in> set (columns d)" using target[OF s2] le2 by (rule subsetD[rotated])
  moreover have "''Cost_Per_Answered_Call'' \<in> set (columns d)" using target[OF s3] le3 by (rule subsetD[rotated])
  moreover have "''A&E_Referral_Rate'' \<in> set (columns d)" using target[OF s4] le4 by (rule subsetD[rotated])
  moreover have "''PrimaryCare_Referral_Rate'' \<in> set (columns d)" using target[OF s5] le5 by (rule subsetD[rotated])
  moreover have "''Calls_Offered_Per_1k'' \<in> set (columns d)" using target[OF s6] le6 by (rule subsetD[rotated])
  moreover have "''Ambulance_Dispatches_Per_1k'' \<in> set (columns d)" by (rule target[OF s7])
  ultimately show "{''Nhs1 Abandoned Calls SUM'', ''Nhs1 Number Calls Offered SUM'',
          ''Nhs1 Answered Calls SUM'', ''Nhs1 Recommend To Ae SUM'',
          ''Nhs1 Recommend To Primcare SUM'', ''Nhs1 Population SUM'', ''Nhs1 Amb Dispatches SUM'',
          ''Abandonment Rate'', ''Total_Cost'', ''Cost_Per_Answered_Call'', ''A&E_Referral_Rate'',
          ''PrimaryCare_Referral_Rate'', ''Calls_Offered_Per_1k'', ''Ambulance_Dispatches_Per_1k''}
         \<subseteq> set (columns d)"
    by (intro insert_subsetI empty_subsetI)
qed

lemma per_1k_SomeD: "per_1k K x p = Some q \<Longrightarrow> is_num x \<and> is_num p \<and> is_num q"
  by (cases x; cases p) (auto simp: per_1k_def)

lemma cell_div_SomeD': "cell_div K x y = Some q \<Longrightarrow> is_num x \<and> is_num y \<and> is_num q"
  by (cases x; cases y) auto

lemma is_num_sanitize: "is_num q \<Longrightarrow> is_num (fillna (replace_inf q))"
  by (cases q rule: replace_inf.cases) auto

lemma derive_row_numeric:
  assumes "derive_row K r0 = Some r"
  shows "is_num (cell_at r ''Nhs1 Number Calls Offered SUM'')"
    and "is_num (cell_at r ''Nhs1 Answered Calls SUM'')"
    and "is_num (cell_at r ''Nhs1 Abandoned Calls SUM'')"
    and "is_num (cell_at r ''Nhs1 Recommend To Ae SUM'')"
    and "is_num (cell_at r ''Nhs1 Recommend To Primcare SUM'')"
    and "is_num (cell_at r ''Nhs1 Population SUM'')"
    and "is_num (cell_at r ''Abandonment Rate'')"
    and "is_num (cell_at r ''Total_Cost'')"
    and "is_num (cell_at r ''Cost_Per_Answered_Call'')"
proof -
  from assms obtain ar tc cp ae pc o1k a1k where
    q: "cell_div K (cell_at r0 ''Nhs1 Abandoned Calls SUM'') (cell_at r0 ''Nhs1 Number Calls Offered SUM'') = Some ar"
       "cell_div K tc (cell_at r0 ''Nhs1 Answered Calls SUM'') = Some cp"
       "cell_div K (cell_at r0 ''Nhs1 Recommend To Ae SUM'') (cell_at r0 ''Nhs1 Answered Calls SUM'') = Some ae"
       "cell_div K (cell_at r0 ''Nhs1 Recommend To Primcare SUM'') (cell_at r0 ''Nhs1 Answered Calls SUM'') = Some pc"
       "per_1k K (cell_at r0 ''Nhs1 Number Calls Offered SUM'') (cell_at r0 ''Nhs1 Population SUM'') = Some o1k" and
    r: "r = AList.update ''Ambulance_Dispatches_Per_1k'' a1k
          (AList.update ''Calls_Offered_Per_1k'' o1k
            (AList.update ''PrimaryCare_Referral_Rate'' pc
              (AList.update ''A&E_Referral_Rate'' ae
                (AList.update ''Cost_Per_Answered_Call'' (fillna (replace_inf cp))
                  (AList.update ''Total_Cost'' tc
                    (AList.update ''Abandonment Rate'' ar r0))))))"
    unfolding derive_row_def Let_def row_step_def
    by (auto split: option.splits simp: cell_at_update)
  note n = cell_div_SomeD'[OF q(1)] cell_div_SomeD'[OF q(2)] cell_div_SomeD'[OF q(3)]
    cell_div_SomeD'[OF q(4)] per_1k_SomeD[OF q(5)]
  show "is_num (cell_at r ''Nhs1 Number Calls Offered SUM'')"
    and "is_num (cell_at r ''Nhs1 Answered Calls SUM'')"
    and "is_num (cell_at r ''Nhs1 Abandoned Calls SUM'')"
    and "is_num (cell_at r ''Nhs1 Recommend To Ae SUM'')"
    and "is_num (cell_at r ''Nhs1 Recommend To Primcare SUM'')"
    and "is_num (cell_at r ''Nhs1 Population SUM'')"
    and "is_num (cell_at r ''Abandonment Rate'')"
    and "is_num (cell_at r ''Total_Cost'')"
    and "is_num (cell_at r ''Cost_Per_Answered_Call'')"
    using n by (simp_all add: r cell_at_update is_num_sanitize)
qed

lemma derived_numeric:
  assumes "add_calculated_columns K d0 = Inr d" and "r \<in> set (rows d)"
  shows "is_num (cell_at r ''Nhs1 Number Calls Offered SUM'')"
    and "is_num (cell_at r ''Nhs1 Answered Calls SUM'')"
    and "is_num (cell_at r ''Nhs1 Abandoned Calls SUM'')"
    and "is_num (cell_at r ''Nhs1 Recommend To Ae SUM'')"
    and "is_num (cell_at r ''Nhs1 Recommend To Primcare SUM'')"
    and "is_num (cell_at r ''Nhs1 Population SUM'')"
    and "is_num (cell_at r ''Abandonment Rate'')"
    and "is_num (cell_at r ''Total_Cost'')"
    and "is_num (cell_at r ''Cost_Per_Answered_Call'')"
proof -
  from assms(2) have "Some r \<in> set (map (derive_row K) (rows d0))"
    by (simp add: add_calculated_columns_rows[OF assms(1)])
  then obtain r0 where "derive_row K r0 = Some r" by auto
  from derive_row_numeric[OF this]
  show "is_num (cell_at r ''Nhs1 Number Calls Offered SUM'')"
    and "is_num (cell_at r ''Nhs1 Answered Calls SUM'')"
    and "is_num (cell_at r ''Nhs1 Abandoned Calls SUM'')"
    and "is_num (cell_at r ''Nhs1 Recommend To Ae SUM'')"
    and "is_num (cell_at r ''Nhs1 Recommend To Primcare SUM'')"
    and "is_num (cell_at r ''Nhs1 Population SUM'')"
    and "is_num (cell_at r ''Abandonment Rate'')"
    and "is_num (cell_at r ''Total_Cost'')"
    and "is_num (cell_at r ''Cost_Per_Answered_Call'')"
    by simp_all
qed


section \<open>What the pandas operations compute\<close>

lemma is_num_float_of: "is_num x \<Longrightarrow> x = Num (float_of x)"
  by (cases x) auto

lemma dropna_conv:
  "c \<in> set (columns d) \<Longrightarrow>
   dropna c d = Inr (d\<lparr>rows := filter (\<lambda>r. cell_at r c \<noteq> Num NaN) (rows d)\<rparr>)"
  using mask_filter[of "rows d" "\<lambda>r. cell_at r c \<noteq> Num NaN"]
  by (simp add: dropna_def getcol_def ebind_def mask_rows_def comp_def)

lemma those_cell_pos:
  "\<forall>x\<in>set xs. is_num x \<Longrightarrow> those (map cell_pos xs) = Some (map (\<lambda>x. fl_pos (float_of x)) xs)"
proof (induction xs)
  case Nil
  show ?case by simp
next
  case (Cons x xs)
  then show ?case by (cases x) auto
qed

lemma select_pos_conv:
  assumes "c \<in> set (columns d)" and "\<forall>r\<in>set (rows d). is_num (cell_at r c)"
  shows "select_pos c d = Inr (d\<lparr>rows := filter (\<lambda>r. fl_pos (float_of (cell_at r c))) (rows d)\<rparr>)"
proof -
  have "those (map cell_pos (map (\<lambda>r. cell_at r c) (rows d)))
          = Some (map (\<lambda>x. fl_pos (float_of x)) (map (\<lambda>r. cell_at r c) (rows d)))"
    by (rule those_cell_pos) (use assms(2) in auto)
  then show ?thesis
    using assms(1) mask_filter[of "rows d" "\<lambda>r. fl_pos (float_of (cell_at r c))"]
    by (simp add: select_pos_def getcol_def ebind_def mask_rows_def comp_def)
qed

lemma sort_values_conv:
  assumes "c \<in> set (columns d)" and "\<forall>r\<in>set (rows d). is_num (cell_at r c)"
  shows "sort_values K c asc d =
           Inr (d\<lparr>rows := sorted_rows (k_tie K asc (column_of (rows d) c)) asc c (rows d)\<rparr>)"
  using assms by (simp add: sort_values_def getcol_def ebind_def list_all_iff column_of_def)

lemma sort_values_Inr:
  assumes "sort_values K c asc d = Inr t"
  shows "t = d\<lparr>rows := sorted_rows (k_tie K asc (column_of (rows d) c)) asc c (rows d)\<rparr>"
  using assms by (auto simp: sort_values_def getcol_def ebind_def column_of_def split: if_splits)

lemma drop_duplicates_conv:
  "c \<in> set (columns d) \<Longrightarrow>
   drop_duplicates c d = Inr (d\<lparr>rows := keep_first (\<lambda>r. cell_at r c) [] (rows d)\<rparr>)"
  by (simp add: drop_duplicates_def getcol_def ebind_def)

lemma as_floats_conv:
  "\<forall>x\<in>set xs. is_num x \<Longrightarrow> as_floats xs = Inr (map float_of xs)"
proof -
  assume a: "\<forall>x\<in>set xs. is_num x"
  then have "those (map cell_float xs) = Some (map float_of xs)"
  proof (induction xs)
    case Nil
    show ?case by simp
  next
    case (Cons x xs)
    then show ?case by (cases x) auto
  qed
  then show ?thesis by (simp add: as_floats_def)
qed

lemma column_sum_conv:
  "c \<in> set (columns d) \<Longrightarrow> column_sum K d c = k_sum K c (column_of (rows d) c)"
  by (simp add: column_sum_def getcol_def ebind_def column_of_def)

lemma column_mean_conv:
  "c \<in> set (columns d) \<Longrightarrow> column_mean K d c = k_mean K c (column_of (rows d) c)"
  by (simp add: column_mean_def getcol_def ebind_def column_of_def)

lemma summary_cards_conv:
  assumes "{''Nhs1 Number Calls Offered SUM'', ''Abandonment Rate'', ''Total_Cost'',
            ''Cost_Per_Answered_Call'', ''Nhs1 Calls Through 111 SUM'', ''Nhs1 Population SUM''}
             \<subseteq> set (columns d)"
  shows "summary_cards K d = aggregates K (rows d)"
proof -
  have 1: "column_sum K d ''Nhs1 Number Calls Offered SUM''
             = k_sum K ''Nhs1 Number Calls Offered SUM'' (column_of (rows d) ''Nhs1 Number Calls Offered SUM'')"
    by (rule column_sum_conv) (use assms in simp)
  have 2: "column_mean K d ''Abandonment Rate''
             = k_mean K ''Abandonment Rate'' (column_of (rows d) ''Abandonment Rate'')"
    by (rule column_mean_conv) (use assms in simp)
  have 3: "column_sum K d ''Total_Cost'' = k_sum K ''Total_Cost'' (column_of (rows d) ''Total_Cost'')"
    by (rule column_sum_conv) (use assms in simp)
  have 4: "column_mean K d ''Cost_Per_Answered_Call''
             = k_mean K ''Cost_Per_Answered_Call'' (column_of (rows d) ''Cost_Per_Answered_Call'')"
    by (rule column_mean_conv) (use assms in simp)
  have 5: "column_sum K d ''Nhs1 Calls Through 111 SUM''
             = k_sum K ''Nhs1 Calls Through 111 SUM'' (column_of (rows d) ''Nhs1 Calls Through 111 SUM'')"
    by (rule column_sum_conv) (use assms in simp)
  have 6: "column_sum K d ''Nhs1 Population SUM''
             = k_sum K ''Nhs1 Population SUM'' (column_of (rows d) ''Nhs1 Population SUM'')"
    by (rule column_sum_conv) (use assms in simp)
  show ?thesis
    unfolding summary_cards_def aggregates_def 1 2 3 4 5 6 ..
qed

lemma summary_cards_KeyError:
  assumes "{''Nhs1 Number Calls Offered SUM'', ''Abandonment Rate'', ''Total_Cost'',
            ''Cost_Per_Answered_Call'', ''Nhs1 Population SUM''} \<subseteq> set (columns d)"
    and "''Nhs1 Calls Through 111 SUM'' \<notin> set (columns d)"
  shows "summary_cards K d = Inl (KeyError ''Nhs1 Calls Through 111 SUM'')
       \<or> (\<exists>e. summary_cards K d = Inl e
             \<and> (k_sum K ''Nhs1 Number Calls Offered SUM'' (column_of (rows d) ''Nhs1 Number Calls Offered SUM'') = Inl e
              \<or> k_mean K ''Abandonment Rate'' (column_of (rows d) ''Abandonment Rate'') = Inl e
              \<or> k_sum K ''Total_Cost'' (column_of (rows d) ''Total_Cost'') = Inl e
              \<or> k_mean K ''Cost_Per_Answered_Call'' (column_of (rows d) ''Cost_Per_Answered_Call'') = Inl e))"
proof -
  have 1: "column_sum K d ''Nhs1 Number Calls Offered SUM''
             = k_sum K ''Nhs1 Number Calls Offered SUM'' (column_of (rows d) ''Nhs1 Number Calls Offered SUM'')"
    by (rule column_sum_conv) (use assms in simp)
  have 2: "column_mean K d ''Abandonment Rate''
             = k_mean K ''Abandonment Rate'' (column_of (rows d) ''Abandonment Rate'')"
    by (rule column_mean_conv) (use assms in simp)
  have 3: "column_sum K d ''Total_Cost'' = k_sum K ''Total_Cost'' (column_of (rows d) ''Total_Cost'')"
    by (rule column_sum_conv) (use assms in simp)
  have 4: "column_mean K d ''Cost_Per_Answered_Call''
             = k_mean K ''Cost_Per_Answered_Call'' (column_of (rows d) ''Cost_Per_Answered_Call'')"
    by (rule column_mean_conv) (use assms in simp)
  have 5: "column_sum K d ''Nhs1 Calls Through 111 SUM'' = Inl (KeyError ''Nhs1 Calls Through 111 SUM'')"
    using assms(2) by (simp add: column_sum_def getcol_def ebind_def)
  show ?thesis
    unfolding summary_cards_def 1 2 3 4 5
    by (auto simp: ebind_def split: sum.splits)
qed

section \<open>What the views compute\<close>

lemma render_summary:
  assumes "''Provider Name'' \<in> set (columns (heap s ! data))" and "data < length (heap s)"
  shows "fst (render_content K data ''tab-summary'' sel s) =
           map_sum id Some
             (summary_cards K ((heap s ! data)\<lparr>rows := subset_rows (heap s ! data) sel\<rparr>))"
  using assms
  by (simp add: render_content_def tab_summary_def select_eq_conv subset_rows_def nth_append
        split: sum.splits)

lemma render_bar1_all:
  assumes "sort_values K ''Combined_Rank'' True (heap s ! data) = Inr t" and "data < length (heap s)"
  shows "fst (render_content K data ''tab-bar1'' ''All'' s) =
           map_sum id (\<lambda>t. Some (KpiBar t))
             (px K ''Top 10 Providers by Performance (Combined KPIs)'' (t\<lparr>rows := take 10 (rows t)\<rparr>))"
    and "heap (snd (render_content K data ''tab-bar1'' ''All'' s)) ! (length (heap s) + 2) =
           t\<lparr>rows := take 10 (rows t)\<rparr>"
  using assms
  by (simp_all add: render_content_def tab_bar1_def head_def nth_append split: sum.splits)

lemma render_bar1_one:
  assumes "''Provider Name'' \<in> set (columns (heap s ! data))" and "data < length (heap s)"
    and "sel \<noteq> ''All''"
  shows "fst (render_content K data ''tab-bar1'' sel s) =
           map_sum id (\<lambda>t. Some (KpiBar t))
             (px K (''Performance KPIs for '' @ sel)
                ((heap s ! data)\<lparr>rows := subset_rows (heap s ! data) sel\<rparr>))"
    and "heap (snd (render_content K data ''tab-bar1'' sel s)) ! (length (heap s) + 2) =
           (heap s ! data)\<lparr>rows := subset_rows (heap s ! data) sel\<rparr>"
  using assms
  by (simp_all add: render_content_def tab_bar1_def select_eq_conv subset_rows_def nth_append
        split: sum.splits)

lemma pos_not_nan: "fl_pos (float_of x) \<Longrightarrow> x \<noteq> Num NaN"
  by (cases x) auto

lemma pie_pipeline:
  assumes "''Abandonment Rate'' \<in> set (columns d)" and "''Provider Name'' \<in> set (columns d)"
    and "\<forall>r\<in>set (rows d). is_num (cell_at r ''Abandonment Rate'')"
  shows "ebind (dropna ''Abandonment Rate'' d) (\<lambda>a.
         ebind (select_pos ''Abandonment Rate'' a) (\<lambda>b.
         ebind (sort_values K ''Abandonment Rate'' False b) (\<lambda>c.
         ebind (drop_duplicates ''Provider Name'' c) (\<lambda>e.
         ebind (head 10 e) (\<lambda>t.
         px_columns [''Provider Name'', ''Abandonment Rate''] t)))))
     = Inr (d\<lparr>rows := take 10 (keep_first (\<lambda>r. cell_at r ''Provider Name'') []
              (sorted_rows
                 (k_tie K False (column_of
                    (filter (\<lambda>r. fl_pos (float_of (cell_at r ''Abandonment Rate''))) (rows d))
                    ''Abandonment Rate''))
                 False ''Abandonment Rate''
                 (filter (\<lambda>r. fl_pos (float_of (cell_at r ''Abandonment Rate''))) (rows d))))\<rparr>)"
proof -
  let ?a = "d\<lparr>rows := filter (\<lambda>r. cell_at r ''Abandonment Rate'' \<noteq> Num NaN) (rows d)\<rparr>"
  let ?P = "filter (\<lambda>r. fl_pos (float_of (cell_at r ''Abandonment Rate''))) (rows d)"
  let ?b = "d\<lparr>rows := ?P\<rparr>"
  let ?S = "sorted_rows (k_tie K False (column_of ?P ''Abandonment Rate'')) False ''Abandonment Rate'' ?P"
  let ?c = "d\<lparr>rows := ?S\<rparr>"
  have 1: "dropna ''Abandonment Rate'' d = Inr ?a"
    by (rule dropna_conv[OF assms(1)])
  have "select_pos ''Abandonment Rate'' ?a
          = Inr (?a\<lparr>rows := filter (\<lambda>r. fl_pos (float_of (cell_at r ''Abandonment Rate''))) (rows ?a)\<rparr>)"
    by (rule select_pos_conv) (use assms in auto)
  moreover have "filter (\<lambda>r. fl_pos (float_of (cell_at r ''Abandonment Rate''))) (rows ?a) = ?P"
    by (auto simp: filter_filter intro!: filter_cong dest: pos_not_nan)
  ultimately have 2: "select_pos ''Abandonment Rate'' ?a = Inr ?b" by simp
  have "sort_values K ''Abandonment Rate'' False ?b
          = Inr (?b\<lparr>rows := sorted_rows (k_tie K False (column_of (rows ?b) ''Abandonment Rate''))
                                False ''Abandonment Rate'' (rows ?b)\<rparr>)"
    by (rule sort_values_conv) (use assms in auto)
  then have 3: "sort_values K ''Abandonment Rate'' False ?b = Inr ?c" by simp
  have "drop_duplicates ''Provider Name'' ?c
          = Inr (?c\<lparr>rows := keep_first (\<lambda>r. cell_at r ''Provider Name'') [] (rows ?c)\<rparr>)"
    by (rule drop_duplicates_conv) (use assms in auto)
  then have 4: "drop_duplicates ''Provider Name'' ?c
          = Inr (d\<lparr>rows := keep_first (\<lambda>r. cell_at r ''Provider Name'') [] ?S\<rparr>)" by simp
  show ?thesis
    unfolding 1 ebind_def sum.case 2 3 4
    using assms(1,2) by (simp add: head_def px_columns_def)
qed

lemma render_pie_all:
  assumes "data < length (heap s)"
  shows "fst (render_content K data ''tab-pie'' ''All'' s) =
     map_sum id (\<lambda>t. Some (PieTop t (pull (length (rows t)))))
       (ebind (dropna ''Abandonment Rate'' (heap s ! data)) (\<lambda>a.
        ebind (select_pos ''Abandonment Rate'' a) (\<lambda>b.
        ebind (sort_values K ''Abandonment Rate'' False b) (\<lambda>c.
        ebind (drop_duplicates ''Provider Name'' c) (\<lambda>e.
        ebind (head 10 e) (\<lambda>t.
        px_columns [''Provider Name'', ''Abandonment Rate''] t))))))"
  using assms
  by (simp add: render_content_def tab_pie_def ebind_def head_def nth_append split: sum.splits)

lemma pos_is_num: "fl_pos (float_of x) \<Longrightarrow> x = Num (float_of x) \<and> float_of x \<noteq> NaN"
  by (cases x) auto

lemma cell_le_desc_pos:
  assumes "fl_pos (float_of x)" and "fl_pos (float_of y)"
  shows "cell_le False x y = fl_le (float_of y) (float_of x)"
proof -
  from pos_is_num[OF assms(1)] pos_is_num[OF assms(2)]
  obtain a b where "x = Num a" "y = Num b" "a \<noteq> NaN" "b \<noteq> NaN" "float_of x = a" "float_of y = b"
    by metis
  then show ?thesis by (simp add: cell_le_num)
qed







text \<open>
  Claim C1, as the code has it. In every row of the derived table the total cost and the
  answered calls are numbers, and \<open>Cost_Per_Answered_Call\<close> is their float quotient
  with a quotient that is not finite replaced by 0. So the field is the total cost divided
  by the answered calls where that quotient is finite, and 0 where it is infinite or
  NaN; where the answered calls are 0, it is 0. (The quotient is NaN where the total cost
  is missing, and infinite where it overflows, whatever the answered calls.)
\<close>

theorem cost_per_answered_call:
  assumes "add_calculated_columns K raw = Inr d" and "r \<in> set (rows d)"
  shows "\<exists>t a. cell_at r ''Total_Cost'' = Num t \<and> cell_at r ''Nhs1 Answered Calls SUM'' = Num a
           \<and> cell_at r ''Cost_Per_Answered_Call'' = fillna (replace_inf (Num (fdiv K t a)))
           \<and> (fdiv K t a \<notin> {NaN, PInf, NInf} \<longrightarrow>
                cell_at r ''Cost_Per_Answered_Call'' = Num (fdiv K t a))
           \<and> (fdiv K t a \<in> {NaN, PInf, NInf} \<longrightarrow>
                cell_at r ''Cost_Per_Answered_Call'' = Num (Fin 0))
           \<and> (a = Fin 0 \<longrightarrow> cell_at r ''Cost_Per_Answered_Call'' = Num (Fin 0))"
proof -
  from assms(2) have "Some r \<in> set (map (derive_row K) (rows raw))"
    by (simp add: add_calculated_columns_rows[OF assms(1)])
  then obtain r0 where "derive_row K r0 = Some r" by auto
  from derive_row_cost[OF this] obtain t a where
    ta: "cell_at r ''Total_Cost'' = Num t" "cell_at r ''Nhs1 Answered Calls SUM'' = Num a"
        "cell_at r ''Cost_Per_Answered_Call'' = fillna (replace_inf (Num (fdiv K t a)))"
    by blast
  have fin: "fillna (replace_inf (Num q)) = Num q" if "q \<notin> {NaN, PInf, NInf}" for q
    using that by (cases q) auto
  have inf: "fillna (replace_inf (Num q)) = Num (Fin 0)" if "q \<in> {NaN, PInf, NInf}" for q
    using that by auto
  have zero: "fdiv K t (Fin 0) \<in> {NaN, PInf, NInf}"
    by (cases t) auto
  show ?thesis using ta fin inf zero by auto
qed

text \<open>The scenario, with exact arithmetic: 800 over 80 answered calls is 10 for provider
  A, and provider B, with no answered call and a cost of 500, has 0.\<close>

theorem cost_per_answered_call_witness:
  "add_calculated_columns exact scenario = Inr (the_frame (add_calculated_columns exact scenario))
   \<and> rows (the_frame (add_calculated_columns exact scenario)) ! 0
       \<in> set (rows (the_frame (add_calculated_columns exact scenario)))
   \<and> rows (the_frame (add_calculated_columns exact scenario)) ! 1
       \<in> set (rows (the_frame (add_calculated_columns exact scenario)))
   \<and> cell_at (rows (the_frame (add_calculated_columns exact scenario)) ! 0) ''Cost_Per_Answered_Call''
       = Num (Fin 10)
   \<and> cell_at (rows (the_frame (add_calculated_columns exact scenario)) ! 1) ''Cost_Per_Answered_Call''
       = Num (Fin 0)"
proof -
  let ?d = "the_frame (add_calculated_columns exact scenario)"
  have ok: "add_calculated_columns exact scenario = Inr ?d"
    by code_simp
  have cells:
    "map (\<lambda>r. (cell_at r ''Total_Cost'', cell_at r ''Nhs1 Answered Calls SUM'')) (rows ?d)
       = [(Num (Fin 800), Num (Fin 80)), (Num (Fin 500), Num (Fin 0))]"
    by code_simp
  have q: "fdiv exact (Fin 800) (Fin 80) = Fin 10"
    by (simp add: exact_def)
  have len: "length (rows ?d) = 2"
    using arg_cong[OF cells, of length] by simp
  have a: "rows ?d ! 0 \<in> set (rows ?d)" and b: "rows ?d ! 1 \<in> set (rows ?d)"
    using len by simp_all
  have ca: "cell_at (rows ?d ! 0) ''Total_Cost'' = Num (Fin 800)"
           "cell_at (rows ?d ! 0) ''Nhs1 Answered Calls SUM'' = Num (Fin 80)"
    and cb: "cell_at (rows ?d ! 1) ''Nhs1 Answered Calls SUM'' = Num (Fin 0)"
    using arg_cong[OF cells, of "\<lambda>xs. xs ! 0"] arg_cong[OF cells, of "\<lambda>xs. xs ! 1"] len
    by simp_all
  from cost_per_answered_call[OF ok a] ca q
  have "cell_at (rows ?d ! 0) ''Cost_Per_Answered_Call'' = Num (Fin 10)" by auto
  moreover from cost_per_answered_call[OF ok b] cb
  have "cell_at (rows ?d ! 1) ''Cost_Per_Answered_Call'' = Num (Fin 0)" by auto
  ultimately show ?thesis using ok a b by simp
qed

text \<open>
  The claim as it is written fails where the cost is missing: the provider of
  \<open>missing_cost\<close> has 80 answered calls, its total cost is NaN, the field is 0, and NaN
  divided by 80 is not 0.
\<close>

theorem cost_per_answered_call_missing_cost:
  "map_sum id
     (\<lambda>d. map (\<lambda>r. (cell_at r ''Nhs1 Answered Calls SUM'', cell_at r ''Total_Cost'',
                      cell_at r ''Cost_Per_Answered_Call'')) (rows d))
     (add_calculated_columns exact missing_cost)
     = Inr [(Num (Fin 80), Num NaN, Num (Fin 0))]
   \<and> fl_pos (Fin 80)
   \<and> Num (fdiv exact NaN (Fin 80)) \<noteq> Num (Fin 0)"
  by code_simp
text \<open>
  Claim C2, as the code has it. The Filter Stage raises nothing. With the selector \<open>All\<close> it
  gives a table with the rows of the base table, as many and in the same order. With any
  other selector it gives the rows whose \<open>Provider Name\<close> is the selector: where the table
  has such a row, a table that is not empty and in which every row bears that name; where
  it has none, an empty table. (A provider whose name is \<open>All\<close> cannot be selected: that
  selector stands for the whole table.)
\<close>

theorem filter_stage_subset:
  assumes "module_init K csv initial = (Inr data, s0)" and "s = serve K data calls s0"
  shows "\<exists>fd s'. filter_stage data sel s = (Inr fd, s')
           \<and> columns (heap s' ! fd) = columns (heap s ! data)
           \<and> rows (heap s' ! fd) =
               (if sel = ''All'' then rows (heap s ! data)
                else filter (\<lambda>r. cell_at r ''Provider Name'' = Str sel) (rows (heap s ! data)))
           \<and> (sel = ''All'' \<longrightarrow> length (rows (heap s' ! fd)) = length (rows (heap s ! data)))
           \<and> (sel \<noteq> ''All'' \<and> (\<exists>r\<in>set (rows (heap s ! data)). cell_at r ''Provider Name'' = Str sel)
                \<longrightarrow> rows (heap s' ! fd) \<noteq> []
                    \<and> (\<forall>r\<in>set (rows (heap s' ! fd)). cell_at r ''Provider Name'' = Str sel))
           \<and> (sel \<noteq> ''All'' \<and> \<not> (\<exists>r\<in>set (rows (heap s ! data)). cell_at r ''Provider Name'' = Str sel)
                \<longrightarrow> rows (heap s' ! fd) = [])"
proof -
  from started[OF assms] obtain d where
    d: "''Provider Name'' \<in> set (columns d)" "heap s ! data = d"
    by metis
  show ?thesis
  proof (cases "sel = ''All''")
    case True
    then show ?thesis
      by (simp add: filter_stage_run d)
  next
    case False
    have ne: "filter P xs \<noteq> []" if "\<exists>x\<in>set xs. P x" for P :: "row \<Rightarrow> bool" and xs
      using that by (simp add: filter_empty_conv)
    have em: "filter P xs = []" if "\<not> (\<exists>x\<in>set xs. P x)" for P :: "row \<Rightarrow> bool" and xs
      using that by (simp add: filter_empty_conv)
    from False show ?thesis
      by (simp add: filter_stage_run d select_eq_conv nth_append ne em)
  qed
qed

text \<open>In the scenario, selecting provider A gives a table that is not empty and holds
  rows of A only.\<close>

theorem filter_stage_subset_witness:
  "module_init exact scenario initial = (Inr 0, snd (module_init exact scenario initial))
   \<and> snd (module_init exact scenario initial) = serve exact 0 [] (snd (module_init exact scenario initial))
   \<and> ''A'' \<noteq> ''All''
   \<and> (\<exists>r\<in>set (rows (heap (snd (module_init exact scenario initial)) ! 0)).
         cell_at r ''Provider Name'' = Str ''A'')
   \<and> (\<exists>fd s'. filter_stage 0 ''A'' (snd (module_init exact scenario initial)) = (Inr fd, s')
         \<and> rows (heap s' ! fd) \<noteq> []
         \<and> (\<forall>r\<in>set (rows (heap s' ! fd)). cell_at r ''Provider Name'' = Str ''A''))"
proof -
  let ?s = "snd (module_init exact scenario initial)"
  have reach: "?s = serve exact 0 [] ?s" by simp
  have "Str ''A'' \<in> set (map (\<lambda>r. cell_at r ''Provider Name'') (rows (heap ?s ! 0)))"
    unfolding scenario_names by simp
  then have present: "\<exists>r\<in>set (rows (heap ?s ! 0)). cell_at r ''Provider Name'' = Str ''A''"
    by auto
  have sel: "''A'' \<noteq> ''All''" by simp
  from filter_stage_subset[OF scenario_init reach, of "''A''"] obtain fd s' where
    "filter_stage 0 ''A'' ?s = (Inr fd, s')"
    "(''A'' \<noteq> ''All'' \<and> (\<exists>r\<in>set (rows (heap ?s ! 0)). cell_at r ''Provider Name'' = Str ''A'')
        \<longrightarrow> rows (heap s' ! fd) \<noteq> []
            \<and> (\<forall>r\<in>set (rows (heap s' ! fd)). cell_at r ''Provider Name'' = Str ''A''))"
    by blast
  with present sel scenario_init reach show ?thesis by blast
qed

text \<open>
  The claim as it is written fails for a provider that is named \<open>All\<close>: that name is
  present in \<open>all_named\<close>, and selecting it gives both rows of the table, the row of
  provider B among them.
\<close>

theorem filter_stage_provider_named_all:
  "(case module_init exact all_named initial of
      (Inl e, s) \<Rightarrow> []
    | (Inr data, s) \<Rightarrow>
        (case filter_stage data ''All'' s of
           (Inl e, s') \<Rightarrow> []
         | (Inr fd, s') \<Rightarrow> map (\<lambda>r. cell_at r ''Provider Name'') (rows (heap s' ! fd))))
   = [Str ''All'', Str ''B'']"
  by code_simp


text \<open>
  Claim C3, as the code has it. On a table that has the column of the calls through 111,
  the Summary view computes its six aggregates (sum of offered calls, mean abandonment
  rate times 100, sum of total cost, mean cost per answered call, sum of 111 calls, sum
  of population, with the sum and the mean of pandas) over the rows that the selector
  stands for: the rows of the selected provider and no other row, or the whole table for
  \<open>All\<close>. It raises where pandas raises on one of these columns or a sum is text, and
  on a table without the column of the calls through 111 it returns no summary.
\<close>

theorem summary_over_subset:
  assumes "module_init K csv initial = (Inr data, s0)" and "s = serve K data calls s0"
  shows "(''Nhs1 Calls Through 111 SUM'' \<in> set (columns (heap s ! data)) \<longrightarrow>
            fst (render_content K data ''tab-summary'' sel s)
              = map_sum id Some (aggregates K (subset_rows (heap s ! data) sel)))
       \<and> (''Nhs1 Calls Through 111 SUM'' \<notin> set (columns (heap s ! data)) \<longrightarrow>
            (\<exists>e. fst (render_content K data ''tab-summary'' sel s) = Inl e))"
proof -
  from started[OF assms] obtain d where
    d: "add_calculated_columns K csv = Inr d" "''Provider Name'' \<in> set (columns d)"
       "data < length (heap s)" "heap s ! data = d"
    by metis
  let ?sub = "d\<lparr>rows := subset_rows d sel\<rparr>"
  have run: "fst (render_content K data ''tab-summary'' sel s) = map_sum id Some (summary_cards K ?sub)"
    using render_summary[of s data K sel] d(2,3,4) by simp
  note cols = add_calculated_columns_columns(2)[OF d(1)]
  have five: "{''Nhs1 Number Calls Offered SUM'', ''Abandonment Rate'', ''Total_Cost'',
               ''Cost_Per_Answered_Call'', ''Nhs1 Population SUM''} \<subseteq> set (columns ?sub)"
    using cols by simp
  have a: "fst (render_content K data ''tab-summary'' sel s)
             = map_sum id Some (aggregates K (subset_rows d sel))"
    if "''Nhs1 Calls Through 111 SUM'' \<in> set (columns d)"
  proof -
    have "summary_cards K ?sub = aggregates K (rows ?sub)"
      by (rule summary_cards_conv) (use five that in simp)
    then show ?thesis by (simp add: run)
  qed
  have b: "\<exists>e. fst (render_content K data ''tab-summary'' sel s) = Inl e"
    if "''Nhs1 Calls Through 111 SUM'' \<notin> set (columns d)"
  proof -
    have "''Nhs1 Calls Through 111 SUM'' \<notin> set (columns ?sub)" using that by simp
    from summary_cards_KeyError[OF five this, of K]
    obtain e where "summary_cards K ?sub = Inl e" by blast
    then show ?thesis by (simp add: run)
  qed
  show ?thesis unfolding d(4) using a b by blast
qed

text \<open>
  The scenario, with exact arithmetic. Provider A alone: 100 calls offered, a rate of 20
  percent, a cost of 800, 10 for each answered call. The whole table: 150 calls offered.
\<close>

theorem summary_over_subset_witness:
  "module_init exact scenario initial = (Inr 0, snd (module_init exact scenario initial))
   \<and> snd (module_init exact scenario initial) = serve exact 0 [] (snd (module_init exact scenario initial))
   \<and> ''Nhs1 Calls Through 111 SUM'' \<in> set (columns (heap (snd (module_init exact scenario initial)) ! 0))
   \<and> fst (render_content exact 0 ''tab-summary'' ''A'' (snd (module_init exact scenario initial)))
       = Inr (Some (SummaryCards (Fin 100) (Fin 20) (Fin 800) (Fin 10) (Fin 30) (Fin 2000)))
   \<and> fst (render_content exact 0 ''tab-summary'' ''All'' (snd (module_init exact scenario initial)))
       = Inr (Some (SummaryCards (Fin 150) (Fin 60) (Fin 1300) (Fin 5) (Fin 60) (Fin 4000)))"
proof -
  let ?s = "snd (module_init exact scenario initial)"
  have reach: "?s = serve exact 0 [] ?s" by simp
  have col: "''Nhs1 Calls Through 111 SUM'' \<in> set (columns (heap ?s ! 0))"
    by code_simp
  have a: "aggregates exact (subset_rows (heap ?s ! 0) ''A'')
             = Inr (SummaryCards (Fin 100) (Fin 20) (Fin 800) (Fin 10) (Fin 30) (Fin 2000))"
    by code_simp
  have b: "aggregates exact (subset_rows (heap ?s ! 0) ''All'')
             = Inr (SummaryCards (Fin 150) (Fin 60) (Fin 1300) (Fin 5) (Fin 60) (Fin 4000))"
    by code_simp
  have 1: "fst (render_content exact 0 ''tab-summary'' ''A'' ?s)
       = Inr (Some (SummaryCards (Fin 100) (Fin 20) (Fin 800) (Fin 10) (Fin 30) (Fin 2000)))"
    using summary_over_subset[OF scenario_init reach, of "''A''"] col a by simp
  have 2: "fst (render_content exact 0 ''tab-summary'' ''All'' ?s)
       = Inr (Some (SummaryCards (Fin 150) (Fin 60) (Fin 1300) (Fin 5) (Fin 60) (Fin 4000)))"
    using summary_over_subset[OF scenario_init reach, of "''All''"] col b by simp
  show ?thesis
    by (intro conjI scenario_init reach col 1 2)
qed

text \<open>
  The claim as it is written fails on a table without the column of the calls through
  111: the module starts on \<open>no_111\<close>, provider A is present, and the Summary view
  raises KeyError instead of computing the aggregates of A.
\<close>

theorem summary_without_111_column:
  "fst (module_init exact no_111 initial) = Inr 0
   \<and> Str ''A'' \<in> set (map (\<lambda>r. cell_at r ''Provider Name'')
                       (rows (heap (snd (module_init exact no_111 initial)) ! 0)))
   \<and> fst (render_content exact 0 ''tab-summary'' ''A'' (snd (module_init exact no_111 initial)))
       = Inl (KeyError ''Nhs1 Calls Through 111 SUM'')"
  by code_simp

text \<open>
  Claim C4. With the selector \<open>All\<close> the Abandonment Pie is made, without an exception,
  from this table: the rows of the base table whose abandonment rate is a number above 0
  (a missing rate and a rate of 0 or less are dropped), sorted by rate, highest first,
  in whatever order the sort leaves rows of equal rate, then of each provider the first
  of its rows only, then the first 10 rows. So the table has at most 10 rows, no provider
  twice, only rates above 0, in descending order; and the row kept for a provider has
  the highest rate of that provider.
\<close>

theorem abandonment_pie_top10:
  assumes "module_init K csv initial = (Inr data, s0)" and "s = serve K data calls s0"
  shows "\<exists>t. fst (render_content K data ''tab-pie'' ''All'' s)
               = Inr (Some (PieTop t (pull (length (rows t)))))
           \<and> (\<exists>sorted.
                 mset sorted = mset (filter (\<lambda>r. fl_pos (float_of (cell_at r ''Abandonment Rate'')))
                                       (rows (heap s ! data)))
               \<and> sorted_wrt (\<lambda>r r'. fl_le (float_of (cell_at r' ''Abandonment Rate''))
                                          (float_of (cell_at r ''Abandonment Rate''))) sorted
               \<and> rows t = take 10 (keep_first (\<lambda>r. cell_at r ''Provider Name'') [] sorted))
           \<and> length (rows t) \<le> 10
           \<and> distinct (map (\<lambda>r. cell_at r ''Provider Name'') (rows t))
           \<and> (\<forall>r\<in>set (rows t). fl_pos (float_of (cell_at r ''Abandonment Rate'')))
           \<and> sorted_wrt (\<lambda>r r'. fl_le (float_of (cell_at r' ''Abandonment Rate''))
                                      (float_of (cell_at r ''Abandonment Rate''))) (rows t)
           \<and> set (rows t) \<subseteq> set (rows (heap s ! data))
           \<and> (\<forall>r\<in>set (rows t). \<forall>r'\<in>set (rows (heap s ! data)).
                 cell_at r' ''Provider Name'' = cell_at r ''Provider Name''
                 \<and> fl_pos (float_of (cell_at r' ''Abandonment Rate''))
                 \<longrightarrow> fl_le (float_of (cell_at r' ''Abandonment Rate''))
                           (float_of (cell_at r ''Abandonment Rate'')))"
proof -
  from started[OF assms] obtain d where
    d: "add_calculated_columns K csv = Inr d" "''Provider Name'' \<in> set (columns d)"
       "data < length (heap s)" "heap s ! data = d"
    by metis
  have ar: "''Abandonment Rate'' \<in> set (columns d)"
    using add_calculated_columns_columns(2)[OF d(1)] by simp
  have num: "\<forall>r\<in>set (rows d). is_num (cell_at r ''Abandonment Rate'')"
    using derived_numeric(7)[OF d(1)] by blast
  define rate where "rate = (\<lambda>r. float_of (cell_at r ''Abandonment Rate''))"
  define name where "name = (\<lambda>r. cell_at r ''Provider Name'')"
  define le where
    "le = (\<lambda>r r'. cell_le False (cell_at r ''Abandonment Rate'') (cell_at r' ''Abandonment Rate''))"
  define P where "P = filter (\<lambda>r. fl_pos (rate r)) (rows d)"
  define S where
    "S = sorted_rows (k_tie K False (column_of P ''Abandonment Rate'')) False ''Abandonment Rate'' P"
  define D where "D = keep_first name [] S"
  define T where "T = take 10 D"
  define t where "t = d\<lparr>rows := T\<rparr>"
  have unfold: "T = take 10 (keep_first (\<lambda>r. cell_at r ''Provider Name'') []
              (sorted_rows
                 (k_tie K False (column_of
                    (filter (\<lambda>r. fl_pos (float_of (cell_at r ''Abandonment Rate''))) (rows d))
                    ''Abandonment Rate''))
                 False ''Abandonment Rate''
                 (filter (\<lambda>r. fl_pos (float_of (cell_at r ''Abandonment Rate''))) (rows d))))"
    by (simp add: T_def D_def S_def P_def name_def rate_def)
  have f2: "rows t = T" by (simp add: t_def)
  have run: "fst (render_content K data ''tab-pie'' ''All'' s)
               = Inr (Some (PieTop (d\<lparr>rows := T\<rparr>) (pull (length T))))"
    unfolding unfold
    using d(3,4) by (simp add: render_pie_all pie_pipeline[OF ar d(2) num])
  then have f1: "fst (render_content K data ''tab-pie'' ''All'' s)
              = Inr (Some (PieTop t (pull (length (rows t)))))"
    by (simp add: t_def)
  have TD: "set T \<subseteq> set D" unfolding T_def by (rule set_take_subset)
  have DS: "set D \<subseteq> set S" unfolding D_def by (rule set_keep_first)
  have SP: "set S = set P" unfolding S_def by (rule set_sorted_rows)
  have PD: "set P \<subseteq> set (rows d)" unfolding P_def by simp
  have posP: "fl_pos (rate r)" if "r \<in> set P" for r
    using that unfolding P_def by simp
  have posS: "fl_pos (rate r)" if "r \<in> set S" for r
    using that SP posP by simp
  have pos: "fl_pos (rate r)" if "r \<in> set T" for r
  proof -
    from that TD have "r \<in> set D" by (rule subsetD[rotated])
    with DS have "r \<in> set S" by (rule subsetD)
    then show ?thesis by (rule posS)
  qed
  have le_ge: "le r r' = fl_le (rate r') (rate r)" if "fl_pos (rate r)" "fl_pos (rate r')" for r r'
    using cell_le_desc_pos[of "cell_at r ''Abandonment Rate''" "cell_at r' ''Abandonment Rate''"] that
    by (simp add: le_def rate_def)
  have sortedS: "sorted_wrt le S"
    unfolding S_def le_def by (rule sorted_sorted_rows)
  have sortedS': "sorted_wrt (\<lambda>r r'. fl_le (rate r') (rate r)) S"
  proof (rule sorted_wrt_mono_rel[OF _ sortedS])
    fix r r' assume "r \<in> set S" "r' \<in> set S" "le r r'"
    then show "fl_le (rate r') (rate r)" using le_ge[OF posS posS, of r r'] by simp
  qed
  have msetS: "mset S = mset P" unfolding S_def by (rule mset_sorted_rows)
  from sortedS have "sorted_wrt le D" unfolding D_def by (rule sorted_keep_first)
  then have sortedT': "sorted_wrt le T" unfolding T_def by (rule sorted_wrt_take)
  have sortedT: "sorted_wrt (\<lambda>r r'. fl_le (rate r') (rate r)) T"
  proof (rule sorted_wrt_mono_rel[OF _ sortedT'])
    fix r r' assume "r \<in> set T" "r' \<in> set T" "le r r'"
    then show "fl_le (rate r') (rate r)" using le_ge[OF pos pos, of r r'] by simp
  qed
  have dist: "distinct (map name T)"
    unfolding T_def take_map[symmetric] D_def
    by (rule distinct_take) (rule distinct_keep_first)
  have sub: "set T \<subseteq> set (rows d)"
    using TD DS SP PD by blast
  have best: "fl_le (rate r') (rate r)"
    if "r \<in> set T" "r' \<in> set (rows d)" "name r' = name r" "fl_pos (rate r')" for r r'
  proof -
    from that(1) TD have rD: "r \<in> set (keep_first name [] S)" unfolding D_def by (rule subsetD[rotated])
    from that(2,4) have "r' \<in> set P" unfolding P_def by simp
    with SP have r'S: "r' \<in> set S" by simp
    have refl: "le x x" for x unfolding le_def by (rule cell_le_refl)
    have "le r r'"
      using sortedS refl rD r'S that(3) by (rule keep_first_is_first)
    then show ?thesis using le_ge[OF pos[OF that(1)] that(4)] by simp
  qed
  have s3: "rows t = take 10 (keep_first name [] S)" unfolding f2 T_def D_def ..
  have sorted: "mset S = mset (filter (\<lambda>r. fl_pos (rate r)) (rows d))
        \<and> sorted_wrt (\<lambda>r r'. fl_le (rate r') (rate r)) S
        \<and> rows t = take 10 (keep_first name [] S)"
    by (intro conjI msetS[unfolded P_def] sortedS' s3)
  have f2': "\<exists>sorted. mset sorted = mset (filter (\<lambda>r. fl_pos (rate r)) (rows d))
        \<and> sorted_wrt (\<lambda>r r'. fl_le (rate r') (rate r)) sorted
        \<and> rows t = take 10 (keep_first name [] sorted)"
    by (rule exI[of _ S]) (rule sorted)
  have f3: "length (rows t) \<le> 10" unfolding f2 T_def by simp
  have f4: "distinct (map name (rows t))" unfolding f2 by (rule dist)
  have f5: "\<forall>r\<in>set (rows t). fl_pos (rate r)" unfolding f2 using pos by blast
  have f6: "sorted_wrt (\<lambda>r r'. fl_le (rate r') (rate r)) (rows t)" unfolding f2 by (rule sortedT)
  have f7: "set (rows t) \<subseteq> set (rows d)" unfolding f2 by (rule sub)
  have f8: "\<forall>r\<in>set (rows t). \<forall>r'\<in>set (rows d).
              name r' = name r \<and> fl_pos (rate r') \<longrightarrow> fl_le (rate r') (rate r)"
    unfolding f2 using best by blast
  have all: "fst (render_content K data ''tab-pie'' ''All'' s) = Inr (Some (PieTop t (pull (length (rows t)))))
        \<and> (\<exists>sorted. mset sorted = mset (filter (\<lambda>r. fl_pos (rate r)) (rows d))
             \<and> sorted_wrt (\<lambda>r r'. fl_le (rate r') (rate r)) sorted
             \<and> rows t = take 10 (keep_first name [] sorted))
        \<and> length (rows t) \<le> 10
        \<and> distinct (map name (rows t))
        \<and> (\<forall>r\<in>set (rows t). fl_pos (rate r))
        \<and> sorted_wrt (\<lambda>r r'. fl_le (rate r') (rate r)) (rows t)
        \<and> set (rows t) \<subseteq> set (rows d)
        \<and> (\<forall>r\<in>set (rows t). \<forall>r'\<in>set (rows d).
              name r' = name r \<and> fl_pos (rate r') \<longrightarrow> fl_le (rate r') (rate r))"
    by (intro conjI f1 f2' f3 f4 f5 f6 f7 f8)
  show ?thesis
    unfolding d(4) by (rule exI[of _ t]) (rule all[unfolded name_def rate_def])
qed

text \<open>
  The table \<open>ranked\<close>: provider A, with a rate of 0, is dropped; of the two rows of K the
  one with the rate of three fifths stays, at the head; and of the eleven providers left
  the one with the lowest rate, B, falls to the cut.
\<close>

theorem abandonment_pie_top10_witness:
  "module_init exact ranked initial = (Inr 0, snd (module_init exact ranked initial))
   \<and> snd (module_init exact ranked initial) = serve exact 0 [] (snd (module_init exact ranked initial))
   \<and> (\<exists>t. fst (render_content exact 0 ''tab-pie'' ''All'' (snd (module_init exact ranked initial)))
               = Inr (Some (PieTop t (pull (length (rows t)))))
          \<and> map (\<lambda>r. (cell_at r ''Provider Name'', cell_at r ''Abandonment Rate'')) (rows t)
               = [(Str ''K'', Num (Fin (3 / 5))), (Str ''L'', Num (Fin (11 / 20))),
                  (Str ''F'', Num (Fin (1 / 2))), (Str ''G'', Num (Fin (9 / 20))),
                  (Str ''E'', Num (Fin (2 / 5))), (Str ''H'', Num (Fin (7 / 20))),
                  (Str ''D'', Num (Fin (3 / 10))), (Str ''I'', Num (Fin (1 / 4))),
                  (Str ''C'', Num (Fin (1 / 5))), (Str ''J'', Num (Fin (3 / 20)))]
          \<and> length (rows t) \<le> 10
          \<and> distinct (map (\<lambda>r. cell_at r ''Provider Name'') (rows t)))"
proof -
  let ?s = "snd (module_init exact ranked initial)"
  have reach: "?s = serve exact 0 [] ?s" by simp
  have run: "map_sum id
               (map_option (\<lambda>a. case a of PieTop t p \<Rightarrow>
                    map (\<lambda>r. (cell_at r ''Provider Name'', cell_at r ''Abandonment Rate'')) (rows t)
                  | _ \<Rightarrow> []))
               (fst (render_content exact 0 ''tab-pie'' ''All'' ?s))
             = Inr (Some [(Str ''K'', Num (Fin (3 / 5))), (Str ''L'', Num (Fin (11 / 20))),
                  (Str ''F'', Num (Fin (1 / 2))), (Str ''G'', Num (Fin (9 / 20))),
                  (Str ''E'', Num (Fin (2 / 5))), (Str ''H'', Num (Fin (7 / 20))),
                  (Str ''D'', Num (Fin (3 / 10))), (Str ''I'', Num (Fin (1 / 4))),
                  (Str ''C'', Num (Fin (1 / 5))), (Str ''J'', Num (Fin (3 / 20)))])"
    by code_simp
  from abandonment_pie_top10[OF ranked_init reach] obtain t where
    t: "fst (render_content exact 0 ''tab-pie'' ''All'' ?s) = Inr (Some (PieTop t (pull (length (rows t)))))"
       "length (rows t) \<le> 10"
       "distinct (map (\<lambda>r. cell_at r ''Provider Name'') (rows t))"
    by blast
  from run have "map (\<lambda>r. (cell_at r ''Provider Name'', cell_at r ''Abandonment Rate'')) (rows t)
               = [(Str ''K'', Num (Fin (3 / 5))), (Str ''L'', Num (Fin (11 / 20))),
                  (Str ''F'', Num (Fin (1 / 2))), (Str ''G'', Num (Fin (9 / 20))),
                  (Str ''E'', Num (Fin (2 / 5))), (Str ''H'', Num (Fin (7 / 20))),
                  (Str ''D'', Num (Fin (3 / 10))), (Str ''I'', Num (Fin (1 / 4))),
                  (Str ''C'', Num (Fin (1 / 5))), (Str ''J'', Num (Fin (3 / 20)))]"
    unfolding t(1) by simp
  then have w: "fst (render_content exact 0 ''tab-pie'' ''All'' ?s) = Inr (Some (PieTop t (pull (length (rows t)))))
          \<and> map (\<lambda>r. (cell_at r ''Provider Name'', cell_at r ''Abandonment Rate'')) (rows t)
               = [(Str ''K'', Num (Fin (3 / 5))), (Str ''L'', Num (Fin (11 / 20))),
                  (Str ''F'', Num (Fin (1 / 2))), (Str ''G'', Num (Fin (9 / 20))),
                  (Str ''E'', Num (Fin (2 / 5))), (Str ''H'', Num (Fin (7 / 20))),
                  (Str ''D'', Num (Fin (3 / 10))), (Str ''I'', Num (Fin (1 / 4))),
                  (Str ''C'', Num (Fin (1 / 5))), (Str ''J'', Num (Fin (3 / 20)))]
          \<and> length (rows t) \<le> 10
          \<and> distinct (map (\<lambda>r. cell_at r ''Provider Name'') (rows t))"
    using t by simp
  have "\<exists>t. fst (render_content exact 0 ''tab-pie'' ''All'' ?s) = Inr (Some (PieTop t (pull (length (rows t)))))
          \<and> map (\<lambda>r. (cell_at r ''Provider Name'', cell_at r ''Abandonment Rate'')) (rows t)
               = [(Str ''K'', Num (Fin (3 / 5))), (Str ''L'', Num (Fin (11 / 20))),
                  (Str ''F'', Num (Fin (1 / 2))), (Str ''G'', Num (Fin (9 / 20))),
                  (Str ''E'', Num (Fin (2 / 5))), (Str ''H'', Num (Fin (7 / 20))),
                  (Str ''D'', Num (Fin (3 / 10))), (Str ''I'', Num (Fin (1 / 4))),
                  (Str ''C'', Num (Fin (1 / 5))), (Str ''J'', Num (Fin (3 / 20)))]
          \<and> length (rows t) \<le> 10
          \<and> distinct (map (\<lambda>r. cell_at r ''Provider Name'') (rows t))"
    by (rule exI[of _ t]) (rule w)
  with ranked_init reach show ?thesis by (intro conjI)
qed

text \<open>
  Claim C5. With the selector \<open>All\<close> the Top-10 Performance builder makes this table and
  hands it to plotly: the first 10 rows of the base table sorted by \<open>Combined_Rank\<close>
  ascending (missing ranks last, rows of equal rank in the order the sort leaves them),
  so 10 rows when the table has at least 10 and all its rows otherwise. Nothing keeps a
  provider from appearing twice in it, as both rows of \<open>same_provider_twice\<close> do. With a
  provider selected the table is the rows of that provider as they stand in the base
  table, neither sorted nor cut. What the view returns is the bar chart that plotly makes
  of the table, or the exception with which plotly refuses it.
\<close>

theorem top10_performance:
  assumes "module_init K csv initial = (Inr data, s0)" and "s = serve K data calls s0"
  shows "(\<exists>sorted.
            mset sorted = mset (rows (heap s ! data))
          \<and> sorted_wrt (\<lambda>r r'. cell_le True (cell_at r ''Combined_Rank'') (cell_at r' ''Combined_Rank''))
               sorted
          \<and> length (take 10 sorted) = min 10 (length (rows (heap s ! data)))
          \<and> heap (snd (render_content K data ''tab-bar1'' ''All'' s)) ! (length (heap s) + 2)
              = (heap s ! data)\<lparr>rows := take 10 sorted\<rparr>
          \<and> fst (render_content K data ''tab-bar1'' ''All'' s)
              = map_sum id (\<lambda>t. Some (KpiBar t))
                  (px K ''Top 10 Providers by Performance (Combined KPIs)''
                     ((heap s ! data)\<lparr>rows := take 10 sorted\<rparr>)))
         \<and> (sel \<noteq> ''All'' \<longrightarrow>
              heap (snd (render_content K data ''tab-bar1'' sel s)) ! (length (heap s) + 2)
                = (heap s ! data)\<lparr>rows := filter (\<lambda>r. cell_at r ''Provider Name'' = Str sel)
                                             (rows (heap s ! data))\<rparr>
              \<and> fst (render_content K data ''tab-bar1'' sel s)
                  = map_sum id (\<lambda>t. Some (KpiBar t))
                      (px K (''Performance KPIs for '' @ sel)
                         ((heap s ! data)\<lparr>rows := filter (\<lambda>r. cell_at r ''Provider Name'' = Str sel)
                                                      (rows (heap s ! data))\<rparr>)))
         \<and> (case module_init exact same_provider_twice initial of
               (Inl e, s') \<Rightarrow> []
             | (Inr data', s') \<Rightarrow>
                 map (\<lambda>r. cell_at r ''Provider Name'')
                   (rows (heap (snd (render_content exact data' ''tab-bar1'' ''All'' s'))
                            ! (length (heap s') + 2))))
             = [Str ''A'', Str ''A'']"
proof -
  from started[OF assms] obtain d t where
    d: "sort_values K ''Combined_Rank'' True d = Inr t" "''Provider Name'' \<in> set (columns d)"
       "data < length (heap s)" "heap s ! data = d"
    by metis
  define le where
    "le = (\<lambda>r r'. cell_le True (cell_at r ''Combined_Rank'') (cell_at r' ''Combined_Rank''))"
  define S where
    "S = sorted_rows (k_tie K True (column_of (rows d) ''Combined_Rank'')) True ''Combined_Rank'' (rows d)"
  have t: "t = d\<lparr>rows := S\<rparr>"
    using sort_values_Inr[OF d(1)] by (simp add: S_def)
  have cut: "t\<lparr>rows := take 10 (rows t)\<rparr> = d\<lparr>rows := take 10 S\<rparr>"
    by (simp add: t)
  have a1: "mset S = mset (rows d)" unfolding S_def by (rule mset_sorted_rows)
  have a2: "sorted_wrt le S" unfolding S_def le_def by (rule sorted_sorted_rows)
  have a3: "length (take 10 S) = min 10 (length (rows d))"
    by (simp add: S_def length_sorted_rows min.commute)
  have a4: "heap (snd (render_content K data ''tab-bar1'' ''All'' s)) ! (length (heap s) + 2)
              = d\<lparr>rows := take 10 S\<rparr>"
    using render_bar1_all(2)[of K s data t] d(1,3,4) cut by simp
  have a5: "fst (render_content K data ''tab-bar1'' ''All'' s)
              = map_sum id (\<lambda>t. Some (KpiBar t))
                  (px K ''Top 10 Providers by Performance (Combined KPIs)'' (d\<lparr>rows := take 10 S\<rparr>))"
    using render_bar1_all(1)[of K s data t] d(1,3,4) cut by simp
  have all: "mset S = mset (rows d) \<and> sorted_wrt le S
          \<and> length (take 10 S) = min 10 (length (rows d))
          \<and> heap (snd (render_content K data ''tab-bar1'' ''All'' s)) ! (length (heap s) + 2)
              = d\<lparr>rows := take 10 S\<rparr>
          \<and> fst (render_content K data ''tab-bar1'' ''All'' s)
              = map_sum id (\<lambda>t. Some (KpiBar t))
                  (px K ''Top 10 Providers by Performance (Combined KPIs)'' (d\<lparr>rows := take 10 S\<rparr>))"
    by (intro conjI a1 a2 a3 a4 a5)
  have ex: "\<exists>sorted. mset sorted = mset (rows d) \<and> sorted_wrt le sorted
          \<and> length (take 10 sorted) = min 10 (length (rows d))
          \<and> heap (snd (render_content K data ''tab-bar1'' ''All'' s)) ! (length (heap s) + 2)
              = d\<lparr>rows := take 10 sorted\<rparr>
          \<and> fst (render_content K data ''tab-bar1'' ''All'' s)
              = map_sum id (\<lambda>t. Some (KpiBar t))
                  (px K ''Top 10 Providers by Performance (Combined KPIs)'' (d\<lparr>rows := take 10 sorted\<rparr>))"
    by (rule exI[of _ S]) (rule all)
  have b: "heap (snd (render_content K data ''tab-bar1'' sel s)) ! (length (heap s) + 2)
                = d\<lparr>rows := filter (\<lambda>r. cell_at r ''Provider Name'' = Str sel) (rows d)\<rparr>
              \<and> fst (render_content K data ''tab-bar1'' sel s)
                  = map_sum id (\<lambda>t. Some (KpiBar t))
                      (px K (''Performance KPIs for '' @ sel)
                         (d\<lparr>rows := filter (\<lambda>r. cell_at r ''Provider Name'' = Str sel) (rows d)\<rparr>))"
    if "sel \<noteq> ''All''"
    using render_bar1_one[of s data sel K] that d(2,3,4) by (simp add: subset_rows_def)
  have c: "(case module_init exact same_provider_twice initial of
               (Inl e, s') \<Rightarrow> []
             | (Inr data', s') \<Rightarrow>
                 map (\<lambda>r. cell_at r ''Provider Name'')
                   (rows (heap (snd (render_content exact data' ''tab-bar1'' ''All'' s'))
                            ! (length (heap s') + 2))))
             = [Str ''A'', Str ''A'']"
    by code_simp
  show ?thesis
    unfolding d(4)
    by (intro conjI impI ex[unfolded le_def] b c)
qed

text \<open>
  The table \<open>ranked\<close> has 13 rows, ranked from the last to the first: with \<open>All\<close> the
  chart shows 10 of them, the best rank first, and provider K twice. The table
  \<open>same_provider_twice\<close> has two rows of provider A, the rank 2 before the rank 1: with
  A selected the chart shows them in that order.
\<close>

theorem top10_performance_witness:
  "module_init exact ranked initial = (Inr 0, snd (module_init exact ranked initial))
   \<and> snd (module_init exact ranked initial) = serve exact 0 [] (snd (module_init exact ranked initial))
   \<and> (\<exists>t. fst (render_content exact 0 ''tab-bar1'' ''All'' (snd (module_init exact ranked initial)))
             = Inr (Some (KpiBar t))
        \<and> map (\<lambda>r. (cell_at r ''Provider Name'', cell_at r ''Combined_Rank'')) (rows t)
             = [(Str ''L'', Num (Fin 1)), (Str ''K'', Num (Fin 2)), (Str ''K'', Num (Fin 3)),
                (Str ''J'', Num (Fin 4)), (Str ''I'', Num (Fin 5)), (Str ''H'', Num (Fin 6)),
                (Str ''G'', Num (Fin 7)), (Str ''F'', Num (Fin 8)), (Str ''E'', Num (Fin 9)),
                (Str ''D'', Num (Fin 10))])
   \<and> module_init exact same_provider_twice initial
       = (Inr 0, snd (module_init exact same_provider_twice initial))
   \<and> snd (module_init exact same_provider_twice initial)
       = serve exact 0 [] (snd (module_init exact same_provider_twice initial))
   \<and> ''A'' \<noteq> ''All''
   \<and> (\<exists>t. fst (render_content exact 0 ''tab-bar1'' ''A'' (snd (module_init exact same_provider_twice initial)))
             = Inr (Some (KpiBar t))
        \<and> map (\<lambda>r. (cell_at r ''Provider Name'', cell_at r ''Combined_Rank'')) (rows t)
             = [(Str ''A'', Num (Fin 2)), (Str ''A'', Num (Fin 1))])"
proof -
  let ?s = "snd (module_init exact ranked initial)"
  let ?d = "heap ?s ! 0"
  let ?f = "\<lambda>r. (cell_at r ''Provider Name'', cell_at r ''Combined_Rank'')"
  have reach: "?s = serve exact 0 [] ?s" by simp
  have px: "px exact title d = Inr d" for title d
    by (simp add: px_def exact_def)
  note inst = top10_performance[OF ranked_init reach, of "''All''", unfolded px]
  from inst obtain sorted where
    s: "heap (snd (render_content exact 0 ''tab-bar1'' ''All'' ?s)) ! (length (heap ?s) + 2)
          = ?d\<lparr>rows := take 10 sorted\<rparr>"
       "fst (render_content exact 0 ''tab-bar1'' ''All'' ?s)
          = map_sum id (\<lambda>t. Some (KpiBar t)) (Inr (?d\<lparr>rows := take 10 sorted\<rparr>))"
    by blast
  have run: "map ?f (rows (heap (snd (render_content exact 0 ''tab-bar1'' ''All'' ?s)) ! (length (heap ?s) + 2)))
             = [(Str ''L'', Num (Fin 1)), (Str ''K'', Num (Fin 2)), (Str ''K'', Num (Fin 3)),
                (Str ''J'', Num (Fin 4)), (Str ''I'', Num (Fin 5)), (Str ''H'', Num (Fin 6)),
                (Str ''G'', Num (Fin 7)), (Str ''F'', Num (Fin 8)), (Str ''E'', Num (Fin 9)),
                (Str ''D'', Num (Fin 10))]"
    by code_simp
  have all: "fst (render_content exact 0 ''tab-bar1'' ''All'' ?s) = Inr (Some (KpiBar (?d\<lparr>rows := take 10 sorted\<rparr>)))
        \<and> map ?f (rows (?d\<lparr>rows := take 10 sorted\<rparr>))
             = [(Str ''L'', Num (Fin 1)), (Str ''K'', Num (Fin 2)), (Str ''K'', Num (Fin 3)),
                (Str ''J'', Num (Fin 4)), (Str ''I'', Num (Fin 5)), (Str ''H'', Num (Fin 6)),
                (Str ''G'', Num (Fin 7)), (Str ''F'', Num (Fin 8)), (Str ''E'', Num (Fin 9)),
                (Str ''D'', Num (Fin 10))]"
    using s(2) run[unfolded s(1)] by simp
  have ex1: "\<exists>t. fst (render_content exact 0 ''tab-bar1'' ''All'' ?s) = Inr (Some (KpiBar t))
        \<and> map ?f (rows t)
             = [(Str ''L'', Num (Fin 1)), (Str ''K'', Num (Fin 2)), (Str ''K'', Num (Fin 3)),
                (Str ''J'', Num (Fin 4)), (Str ''I'', Num (Fin 5)), (Str ''H'', Num (Fin 6)),
                (Str ''G'', Num (Fin 7)), (Str ''F'', Num (Fin 8)), (Str ''E'', Num (Fin 9)),
                (Str ''D'', Num (Fin 10))]"
    by (rule exI[of _ "?d\<lparr>rows := take 10 sorted\<rparr>"]) (rule all)
  let ?u = "snd (module_init exact same_provider_twice initial)"
  let ?k = "(heap ?u ! 0)\<lparr>rows := filter (\<lambda>r. cell_at r ''Provider Name'' = Str ''A'') (rows (heap ?u ! 0))\<rparr>"
  have reach': "?u = serve exact 0 [] ?u" by simp
  have sel: "''A'' \<noteq> ''All''" by simp
  have rows_k: "map ?f (filter (\<lambda>r. cell_at r ''Provider Name'' = Str ''A'') (rows (heap ?u ! 0)))
                  = [(Str ''A'', Num (Fin 2)), (Str ''A'', Num (Fin 1))]"
    by code_simp
  have one: "fst (render_content exact 0 ''tab-bar1'' ''A'' ?u) = Inr (Some (KpiBar ?k))
        \<and> map ?f (rows ?k) = [(Str ''A'', Num (Fin 2)), (Str ''A'', Num (Fin 1))]"
    using top10_performance[OF same_provider_twice_init reach', of "''A''", unfolded px] sel rows_k
    by simp
  have ex2: "\<exists>t. fst (render_content exact 0 ''tab-bar1'' ''A'' ?u) = Inr (Some (KpiBar t))
        \<and> map ?f (rows t) = [(Str ''A'', Num (Fin 2)), (Str ''A'', Num (Fin 1))]"
    by (rule exI[of _ ?k]) (rule one)
  show ?thesis
    by (intro conjI ranked_init reach ex1 same_provider_twice_init reach' sel ex2)
qed



text \<open>
  Claim C8. Whatever the tab and the provider, the callback changes no object that exists
  when it is called: the heap after the call begins with the heap before it, and what
  the call adds are its own local tables. So the base table behind \<open>data\<close> has the same
  columns and the same rows after the call, and after any sequence of calls.
\<close>

theorem render_content_keeps_base_table:
  "take (length (heap s)) (heap (snd (render_content K data tab sel s))) = heap s
   \<and> take (length (heap s)) (heap (serve K data calls s)) = heap s
   \<and> (data < length (heap s) \<longrightarrow>
        heap (snd (render_content K data tab sel s)) ! data = heap s ! data
        \<and> heap (serve K data calls s) ! data = heap s ! data)"
proof -
  have "heap (serve K data [(tab, sel)] s) ! data = heap s ! data" if "data < length (heap s)"
    using that by (rule nth_heap_serve)
  then show ?thesis
    by (simp add: heap_render_content heap_serve nth_heap_serve)
qed

theorem render_content_keeps_base_table_witness:
  "(0::nat) < length (heap \<lparr>heap = [scenario], stdout = []\<rparr>)
   \<and> heap (snd (render_content exact 0 ''tab-bar'' ''All'' \<lparr>heap = [scenario], stdout = []\<rparr>)) ! 0 = scenario
   \<and> heap (serve exact 0 [(''tab-bar'', ''All''), (''tab-pie'', ''B''), (''tab-summary'', ''A'')]
              \<lparr>heap = [scenario], stdout = []\<rparr>) ! 0 = scenario"
  using render_content_keeps_base_table
          [of "\<lparr>heap = [scenario], stdout = []\<rparr>" exact 0 "''tab-bar''" "''All''"
              "[(''tab-bar'', ''All''), (''tab-pie'', ''B''), (''tab-summary'', ''A'')]"]
  by simp

text \<open>
  Claim C9. The Metric Deriver works row by row. What it makes of a table is, row for row,
  what \<open>derive_row\<close> makes of that row alone, so each derived field of a row is a function
  of the fields of that row. And it does not depend on the order of the rows: for every
  rearrangement \<open>p\<close> of the rows, deriving the rearranged table gives the rearranged
  derived table, or the same exception.
\<close>

theorem deriver_row_wise:
  assumes "mset p = mset [0..<length (rows raw)]"
  shows "add_calculated_columns K (take_rows p raw)
           = map_sum id (take_rows p) (add_calculated_columns K raw)
         \<and> (\<forall>d. add_calculated_columns K raw = Inr d \<longrightarrow>
               map (derive_row K) (rows raw) = map Some (rows d))"
proof -
  from assms have "set p = {0..<length (rows raw)}"
    by (metis mset_eq_setD set_upt)
  then show ?thesis
    by (simp add: add_calculated_columns_take_rows add_calculated_columns_rows)
qed

theorem deriver_row_wise_witness:
  "mset [1, 0] = mset [0..<length (rows scenario)]
   \<and> add_calculated_columns exact (take_rows [1, 0] scenario)
        = map_sum id (take_rows [1, 0]) (add_calculated_columns exact scenario)
   \<and> add_calculated_columns exact scenario = Inr (the_frame (add_calculated_columns exact scenario))
   \<and> map (derive_row exact) (rows scenario) = map Some (rows (the_frame (add_calculated_columns exact scenario)))"
proof -
  have len: "length (rows scenario) = 2"
    by (simp add: scenario_def example_table_def)
  have p: "mset [1, 0] = mset [0..<length (rows scenario)]"
    unfolding len by (simp add: upt_rec numeral_2_eq_2)
  have ok: "add_calculated_columns exact scenario = Inr (the_frame (add_calculated_columns exact scenario))"
    by code_simp
  from deriver_row_wise[OF p] ok p show ?thesis by blast
qed

text \<open>
  Claim C10. The callback has a branch for seven tab values: \<open>tab-table\<close>, \<open>tab-bar\<close>,
  \<open>tab-heatmap\<close>, \<open>tab-pie\<close>, \<open>tab-scatter\<close>, \<open>tab-bar1\<close> and \<open>tab-summary\<close>. (The layout
  offers these and \<open>tab-graph\<close>.) For any other tab and any provider, the callback raises
  nothing and returns \<open>None\<close>; it leaves every object as it is, and what it leaves behind
  is the copy it made for \<open>filtered_data\<close> and its two lines of debug output.
\<close>

theorem render_content_unknown_tab:
  assumes "module_init K csv initial = (Inr data, s0)" and "s = serve K data calls s0"
    and "tab \<notin> {''tab-table'', ''tab-bar'', ''tab-heatmap'', ''tab-pie'', ''tab-scatter'',
                 ''tab-bar1'', ''tab-summary''}"
  shows "fst (render_content K data tab sel s) = Inr None
         \<and> take (length (heap s)) (heap (snd (render_content K data tab sel s))) = heap s
         \<and> (\<exists>fd. snd (render_content K data tab sel s) =
               s\<lparr>heap := heap s @ (if sel = ''All'' then [fd] else [fd, fd]),
                  stdout := stdout s @ [SelectedProvider sel,
                                        FilteredShape (length (rows fd)) (length (columns fd))]\<rparr>)"
proof -
  from started[OF assms(1,2)] obtain d where
    d: "''Provider Name'' \<in> set (columns d)" "heap s ! data = d"
    by metis
  from assms(3) have tab: "tab \<noteq> ''tab-table''" "tab \<noteq> ''tab-bar''" "tab \<noteq> ''tab-heatmap''"
    "tab \<noteq> ''tab-pie''" "tab \<noteq> ''tab-scatter''" "tab \<noteq> ''tab-bar1''" "tab \<noteq> ''tab-summary''"
    by simp_all
  have run: "\<exists>fd. render_content K data tab sel s =
          (Inr None, s\<lparr>heap := heap s @ (if sel = ''All'' then [fd] else [fd, fd]),
                       stdout := stdout s @ [SelectedProvider sel,
                                             FilteredShape (length (rows fd)) (length (columns fd))]\<rparr>)"
  proof (cases "sel = ''All''")
    case True
    then show ?thesis
      by (intro exI[of _ "heap s ! data"]) (simp add: render_content_def tab nth_append)
  next
    case False
    then show ?thesis
      by (intro exI[of _ "d\<lparr>rows := filter (\<lambda>r. cell_at r ''Provider Name'' = Str sel) (rows d)\<rparr>"])
         (simp add: render_content_def tab d select_eq_conv nth_append)
  qed
  then obtain fd where fd: "render_content K data tab sel s =
          (Inr None, s\<lparr>heap := heap s @ (if sel = ''All'' then [fd] else [fd, fd]),
                       stdout := stdout s @ [SelectedProvider sel,
                                             FilteredShape (length (rows fd)) (length (columns fd))]\<rparr>)"
    by blast
  show ?thesis
    unfolding fd by (auto simp: heap_render_content)
qed

theorem render_content_unknown_tab_witness:
  "module_init exact scenario initial = (Inr 0, snd (module_init exact scenario initial))
   \<and> snd (module_init exact scenario initial) = serve exact 0 [] (snd (module_init exact scenario initial))
   \<and> ''tab-graph'' \<notin> {''tab-table'', ''tab-bar'', ''tab-heatmap'', ''tab-pie'', ''tab-scatter'',
                        ''tab-bar1'', ''tab-summary''}
   \<and> fst (render_content exact 0 ''tab-graph'' ''B'' (snd (module_init exact scenario initial))) = Inr None"
proof -
  have tab: "''tab-graph'' \<notin> {''tab-table'', ''tab-bar'', ''tab-heatmap'', ''tab-pie'', ''tab-scatter'',
                        ''tab-bar1'', ''tab-summary''}"
    by simp
  have reach: "snd (module_init exact scenario initial) = serve exact 0 [] (snd (module_init exact scenario initial))"
    by simp
  from render_content_unknown_tab[OF scenario_init reach tab, of "''B''"] scenario_init reach tab
  show ?thesis by blast
qed


end
